theory Spec2Isabelle
  imports Main "HOL-Library.Word" "HOL-Library.Sublist" "HOL-Library.Multiset"
begin

section \<open>Strings: \<^verbatim>\<open>strings.TrimSpace\<close> and \<^verbatim>\<open>html.EscapeString\<close>\<close>

text \<open>
  A Go string is a sequence of bytes, here a \<^typ>\<open>string\<close> (a list of 8-bit characters).
  \<^verbatim>\<open>strings.TrimSpace\<close> removes leading and trailing white space as Unicode defines it
  (\<^verbatim>\<open>unicode.IsSpace\<close>): the six ASCII characters tab, line feed, vertical tab, form feed,
  carriage return and space, and the runes U+0085, U+00A0, U+1680, U+2000 to U+200A, U+2028,
  U+2029, U+202F, U+205F and U+3000. A rune is recognised only in its UTF-8 encoding, so on
  bytes the white space runes are the byte sequences below; a byte that starts no such
  sequence (an invalid or truncated encoding included) is not white space and stops the
  trimming.
\<close>

definition space_runes :: "string list" where
  "space_runes =
     [[CHR 0x09], [CHR 0x0A], [CHR 0x0B], [CHR 0x0C], [CHR 0x0D], [CHR 0x20],
      [CHR 0xC2, CHR 0x85], [CHR 0xC2, CHR 0xA0],
      [CHR 0xE1, CHR 0x9A, CHR 0x80],
      [CHR 0xE2, CHR 0x80, CHR 0x80], [CHR 0xE2, CHR 0x80, CHR 0x81],
      [CHR 0xE2, CHR 0x80, CHR 0x82], [CHR 0xE2, CHR 0x80, CHR 0x83],
      [CHR 0xE2, CHR 0x80, CHR 0x84], [CHR 0xE2, CHR 0x80, CHR 0x85],
      [CHR 0xE2, CHR 0x80, CHR 0x86], [CHR 0xE2, CHR 0x80, CHR 0x87],
      [CHR 0xE2, CHR 0x80, CHR 0x88], [CHR 0xE2, CHR 0x80, CHR 0x89],
      [CHR 0xE2, CHR 0x80, CHR 0x8A],
      [CHR 0xE2, CHR 0x80, CHR 0xA8], [CHR 0xE2, CHR 0x80, CHR 0xA9],
      [CHR 0xE2, CHR 0x80, CHR 0xAF],
      [CHR 0xE2, CHR 0x81, CHR 0x9F],
      [CHR 0xE3, CHR 0x80, CHR 0x80]]"

text \<open>The white space rune a string starts with, and the one it ends with.\<close>

definition leading_space :: "string \<Rightarrow> string option" where
  "leading_space s = find (\<lambda>u. take (length u) s = u) space_runes"

definition trailing_space :: "string \<Rightarrow> string option" where
  "trailing_space s = find (\<lambda>u. drop (length s - length u) s = u) space_runes"

text \<open>
  \<^verbatim>\<open>TrimSpace(s) = TrimRightFunc(TrimLeftFunc(s, unicode.IsSpace), unicode.IsSpace)\<close>: runes
  are removed one at a time, from the left and then from the right.
\<close>

function TrimLeft :: "string \<Rightarrow> string" where
  "TrimLeft s =
     (case leading_space s of None \<Rightarrow> s | Some u \<Rightarrow> TrimLeft (drop (length u) s))"
  by pat_completeness auto
termination
proof (relation "measure length")
  show "wf (measure length)" by simp
next
  fix s u :: string
  assume "leading_space s = Some u"
  then have "u \<in> set space_runes" and t: "take (length u) s = u"
    by (auto simp: leading_space_def find_Some_iff)
  then have u: "u \<noteq> []" by (auto simp: space_runes_def)
  with t have "s \<noteq> []" by auto
  with u show "(drop (length u) s, s) \<in> measure length" by simp
qed

function TrimRight :: "string \<Rightarrow> string" where
  "TrimRight s =
     (case trailing_space s of None \<Rightarrow> s
      | Some u \<Rightarrow> TrimRight (take (length s - length u) s))"
  by pat_completeness auto
termination
proof (relation "measure length")
  show "wf (measure length)" by simp
next
  fix s u :: string
  assume "trailing_space s = Some u"
  then have "u \<in> set space_runes" and t: "drop (length s - length u) s = u"
    by (auto simp: trailing_space_def find_Some_iff)
  then have u: "u \<noteq> []" by (auto simp: space_runes_def)
  with t have "s \<noteq> []" by auto
  with u show "(take (length s - length u) s, s) \<in> measure length" by simp
qed

declare TrimLeft.simps [simp del] TrimRight.simps [simp del]

definition TrimSpace :: "string \<Rightarrow> string" where
  "TrimSpace s = TrimRight (TrimLeft s)"

text \<open>
  \<^verbatim>\<open>html.EscapeString\<close> replaces each of the five bytes \<^verbatim>\<open>& ' < > "\<close> by its entity and
  copies every other byte.
\<close>

definition htmlEscaper :: "char \<Rightarrow> string" where
  "htmlEscaper c =
     (if c = CHR ''&'' then ''&amp;''
      else if c = CHR 0x27 then ''&#39;''
      else if c = CHR ''<'' then ''&lt;''
      else if c = CHR ''>'' then ''&gt;''
      else if c = CHR 0x22 then ''&#34;''
      else [c])"

definition EscapeString :: "string \<Rightarrow> string" where
  "EscapeString s = concat (map htmlEscaper s)"

text \<open>The five bytes that \<^const>\<open>EscapeString\<close> rewrites.\<close>

definition metachars :: "char set" where
  "metachars = {CHR ''&'', CHR 0x27, CHR ''<'', CHR ''>'', CHR 0x22}"


section \<open>The data model\<close>

text \<open>
  \<^verbatim>\<open>District\<close>, \<^verbatim>\<open>Province\<close> and \<^verbatim>\<open>Country\<close> are three Go structs with the same ten scalar
  fields; \<^verbatim>\<open>Province\<close> adds \<^verbatim>\<open>Districts\<close> and \<^verbatim>\<open>Country\<close> adds \<^verbatim>\<open>Provinces\<close>. The ten
  shared fields are the record \<open>Entity\<close>, which is also a row of table \<^verbatim>\<open>country\<close>; a row of
  table \<^verbatim>\<open>provinces\<close> has the column \<^verbatim>\<open>country_id\<close> in addition. An \<^verbatim>\<open>int64\<close> is a 64-bit
  word read as a signed number; a \<^verbatim>\<open>time.Time\<close> is an abstract instant.

  \<^verbatim>\<open>Provinces\<close> is \<^verbatim>\<open>[]*Province\<close>: a slice that may be nil (\<open>None\<close>), of pointers that may
  be nil (\<open>None\<close> as an element, what the JSON decoder makes of a \<^verbatim>\<open>null\<close> element). The
  decoder allocates every element, so no two elements alias and mutation through the pointer
  is the replacement of the element.
\<close>

type_synonym int64 = "64 word"

type_synonym Time = nat

record Entity =
  ID :: string
  Name :: string
  Total :: int64
  NewCase :: int64
  Treated :: int64
  DecoveringCase :: int64
  TestCase :: int64
  Dead :: int64
  NegativeTest :: int64
  UpdatedAt :: Time

type_synonym District = Entity

record Province = Entity +
  Districts :: "District option list option"

record Country = Entity +
  Provinces :: "Province option list option"

record province_row = Entity +
  country_id :: string

text \<open>
  Go's error values: the sentinel \<^verbatim>\<open>errNotFound\<close> of the program, the sentinels of
  \<^verbatim>\<open>database/sql\<close> and of the driver that the program meets, an error made by
  \<^verbatim>\<open>errors.New\<close>, and any other failure the store reports.
\<close>

datatype error =
    errNotFound
  | ErrNoRows
  | ErrTxDone
  | ErrInFailedTransaction
  | errors_New string
  | driver_error string

fun Error :: "error \<Rightarrow> string" where
  "Error errNotFound = ''Error: No data found''"
| "Error ErrNoRows = ''sql: no rows in result set''"
| "Error ErrTxDone = ''sql: transaction has already been committed or rolled back''"
| "Error ErrInFailedTransaction = ''pq: Could not complete operation in a failed transaction''"
| "Error (errors_New m) = m"
| "Error (driver_error m) = m"

text \<open>A call either returns or panics (the dereference of a nil pointer).\<close>

datatype 'a result = Return 'a | Panic

text \<open>The elements a \<^verbatim>\<open>range\<close> loop visits, and the slice with its elements replaced.\<close>

fun elems :: "'a list option \<Rightarrow> 'a list" where
  "elems None = []"
| "elems (Some xs) = xs"

fun set_elems :: "'a list option \<Rightarrow> 'a list \<Rightarrow> 'a list option" where
  "set_elems None ys = None"
| "set_elems (Some xs) ys = Some ys"

subsection \<open>Prepare, BeforeSave and Validate\<close>

definition Province_Prepare :: "Province \<Rightarrow> Province" where
  "Province_Prepare p = p\<lparr>Name := EscapeString (TrimSpace (Name p))\<rparr>"

definition Province_Validate :: "Province \<Rightarrow> error option" where
  "Province_Validate p =
     (if Name p = [] then Some (errors_New ''province: name is required'') else None)"

definition Country_Prepare :: "Country \<Rightarrow> Country" where
  "Country_Prepare c = c\<lparr>Name := EscapeString (TrimSpace (Name c))\<rparr>"

definition Country_Validate :: "Country \<Rightarrow> error option" where
  "Country_Validate c =
     (if Name c = [] then Some (errors_New ''country: name is required'') else None)"

section \<open>The environment: clock, identifiers and the store\<close>

text \<open>
  What the program reads from outside is an \<open>env\<close>: the value of the \<open>n\<close>-th call of
  \<^verbatim>\<open>time.Now\<close>, the string of the \<open>n\<close>-th \<^verbatim>\<open>uuid.NewV4\<close>, and for the \<open>n\<close>-th round trip to
  the store the failure it ends with, if any (a lost connection, a violated constraint, a
  row that does not scan). The \<open>world\<close> is the state: the committed tables, the trace of the
  round trips made so far, and how many clock readings and identifiers were taken.
\<close>

datatype stmt =
    InsertCountry Entity
  | InsertProvinces "province_row list"
  | UpdateCountry string string int64 int64 int64 int64 int64 int64 int64 Time
  | UpdateProvinces string string int64 int64 int64 int64 int64 int64 Time
  | SelectCountry string
  | SelectProvinces string

datatype call = BeginTx | Commit | Rollback | Exec stmt | Query stmt | Rows

record tables =
  country_tbl :: "Entity list"
  provinces_tbl :: "province_row list"

record world =
  db :: tables
  calls :: "call list"
  ticks :: nat
  uuids_used :: nat

record env =
  now :: "nat \<Rightarrow> Time"
  NewV4 :: "nat \<Rightarrow> string"
  fault :: "nat \<Rightarrow> error option"

definition time_Now :: "env \<Rightarrow> world \<Rightarrow> Time \<times> world" where
  "time_Now env w = (now env (ticks w), w\<lparr>ticks := Suc (ticks w)\<rparr>)"

definition uuid_NewV4 :: "env \<Rightarrow> world \<Rightarrow> string \<times> world" where
  "uuid_NewV4 env w = (NewV4 env (uuids_used w), w\<lparr>uuids_used := Suc (uuids_used w)\<rparr>)"

definition Province_BeforeSave :: "env \<Rightarrow> Province \<Rightarrow> world \<Rightarrow> Province \<times> world" where
  "Province_BeforeSave env p w = (case uuid_NewV4 env w of (u, w') \<Rightarrow> (p\<lparr>ID := u\<rparr>, w'))"

definition Country_BeforeSave :: "env \<Rightarrow> Country \<Rightarrow> world \<Rightarrow> Country \<times> world" where
  "Country_BeforeSave env c w = (case uuid_NewV4 env w of (u, w') \<Rightarrow> (c\<lparr>ID := u\<rparr>, w'))"

text \<open>One round trip: it is appended to the trace and ends as the environment says.\<close>

definition round_trip :: "env \<Rightarrow> call \<Rightarrow> world \<Rightarrow> error option \<times> world" where
  "round_trip env c w = (fault env (length (calls w)), w\<lparr>calls := calls w @ [c]\<rparr>)"

subsection \<open>The statements\<close>

text \<open>
  What a statement that the store accepts does to the tables. The two \<^verbatim>\<open>UPDATE\<close>
  statements carry the key of their \<^verbatim>\<open>WHERE id = $n\<close> first and then one value for each
  column of their \<^verbatim>\<open>SET\<close> list, in the order of the source; \<open>UpdateProvinces\<close> has no value
  for \<^verbatim>\<open>new_case\<close> because \<^verbatim>\<open>provinceRepo.Update\<close> sets none.
\<close>

fun apply_stmt :: "stmt \<Rightarrow> tables \<Rightarrow> tables" where
  "apply_stmt (InsertCountry r) t = t\<lparr>country_tbl := country_tbl t @ [r]\<rparr>"
| "apply_stmt (InsertProvinces rs) t = t\<lparr>provinces_tbl := provinces_tbl t @ rs\<rparr>"
| "apply_stmt (UpdateCountry i n tot nc tr dc tc de ng u) t =
     t\<lparr>country_tbl := map (\<lambda>r. if ID r = i
          then r\<lparr>Name := n, Total := tot, NewCase := nc, Treated := tr, DecoveringCase := dc,
                 TestCase := tc, Dead := de, NegativeTest := ng, UpdatedAt := u\<rparr>
          else r) (country_tbl t)\<rparr>"
| "apply_stmt (UpdateProvinces i n tot tr dc tc de ng u) t =
     t\<lparr>provinces_tbl := map (\<lambda>r. if ID r = i
          then r\<lparr>Name := n, Total := tot, Treated := tr, DecoveringCase := dc,
                 TestCase := tc, Dead := de, NegativeTest := ng, UpdatedAt := u\<rparr>
          else r) (provinces_tbl t)\<rparr>"
| "apply_stmt (SelectCountry i) t = t"
| "apply_stmt (SelectProvinces i) t = t"

text \<open>
  The rows of the two \<^verbatim>\<open>SELECT\<close> statements. \<^verbatim>\<open>ORDER BY total DESC\<close> leaves the order of
  rows with equal totals open; the model keeps them in table order, and no theorem below
  depends on that choice.
\<close>

definition select_country :: "string \<Rightarrow> tables \<Rightarrow> Entity list" where
  "select_country i t = filter (\<lambda>r. ID r = i) (country_tbl t)"

definition select_provinces :: "string \<Rightarrow> tables \<Rightarrow> province_row list" where
  "select_provinces i t =
     sort_key (\<lambda>r. - sint (Total r)) (filter (\<lambda>r. country_id r = i) (provinces_tbl t))"

subsection \<open>\<^verbatim>\<open>database/sql\<close> over the PostgreSQL driver\<close>

text \<open>
  A transaction works on its own copy of the tables. A statement that fails on the server
  aborts the transaction; \<^verbatim>\<open>Commit\<close> of an aborted transaction rolls it back and returns
  \<^verbatim>\<open>ErrInFailedTransaction\<close>; after \<^verbatim>\<open>Commit\<close> or \<^verbatim>\<open>Rollback\<close> the transaction is done and
  every further call on it returns \<^verbatim>\<open>ErrTxDone\<close> without a round trip. Outside a
  transaction each statement commits on its own.
\<close>

datatype tx_status = Active | Aborted | Done

record tx =
  tx_tables :: tables
  tx_status :: tx_status

definition DB_BeginTx :: "env \<Rightarrow> world \<Rightarrow> (error + tx) \<times> world" where
  "DB_BeginTx env w =
     (case round_trip env BeginTx w of
        (Some e, w') \<Rightarrow> (Inl e, w')
      | (None, w') \<Rightarrow> (Inr \<lparr>tx_tables = db w', tx_status = Active\<rparr>, w'))"

definition Tx_ExecContext :: "env \<Rightarrow> stmt \<Rightarrow> tx \<Rightarrow> world \<Rightarrow> error option \<times> tx \<times> world" where
  "Tx_ExecContext env s t w =
     (if tx_status t = Done then (Some ErrTxDone, t, w)
      else case round_trip env (Exec s) w of
        (Some e, w') \<Rightarrow> (Some e, t\<lparr>tx_status := Aborted\<rparr>, w')
      | (None, w') \<Rightarrow>
          if tx_status t = Aborted then (Some ErrInFailedTransaction, t, w')
          else (None, t\<lparr>tx_tables := apply_stmt s (tx_tables t)\<rparr>, w'))"

definition Tx_Commit :: "env \<Rightarrow> tx \<Rightarrow> world \<Rightarrow> error option \<times> tx \<times> world" where
  "Tx_Commit env t w =
     (if tx_status t = Done then (Some ErrTxDone, t, w)
      else case round_trip env Commit w of
        (Some e, w') \<Rightarrow> (Some e, t\<lparr>tx_status := Done\<rparr>, w')
      | (None, w') \<Rightarrow>
          if tx_status t = Aborted
          then (Some ErrInFailedTransaction, t\<lparr>tx_status := Done\<rparr>, w')
          else (None, t\<lparr>tx_status := Done\<rparr>, w'\<lparr>db := tx_tables t\<rparr>))"

definition Tx_Rollback :: "env \<Rightarrow> tx \<Rightarrow> world \<Rightarrow> error option \<times> tx \<times> world" where
  "Tx_Rollback env t w =
     (if tx_status t = Done then (Some ErrTxDone, t, w)
      else case round_trip env Rollback w of
        (e, w') \<Rightarrow> (e, t\<lparr>tx_status := Done\<rparr>, w'))"

definition DB_ExecContext :: "env \<Rightarrow> stmt \<Rightarrow> world \<Rightarrow> error option \<times> world" where
  "DB_ExecContext env s w =
     (case round_trip env (Exec s) w of
        (Some e, w') \<Rightarrow> (Some e, w')
      | (None, w') \<Rightarrow> (None, w'\<lparr>db := apply_stmt s (db w')\<rparr>))"

text \<open>
  \<^verbatim>\<open>QueryRowContext(...).Scan\<close> yields the first row of the answer, or \<^verbatim>\<open>sql.ErrNoRows\<close>
  when the answer is empty.
\<close>

definition DB_QueryRow_country :: "env \<Rightarrow> string \<Rightarrow> world \<Rightarrow> (error + Entity) \<times> world" where
  "DB_QueryRow_country env i w =
     (case round_trip env (Query (SelectCountry i)) w of
        (Some e, w') \<Rightarrow> (Inl e, w')
      | (None, w') \<Rightarrow>
          (case select_country i (db w') of
             [] \<Rightarrow> (Inl ErrNoRows, w')
           | r # rs \<Rightarrow> (Inr r, w')))"

definition DB_Query_provinces ::
  "env \<Rightarrow> string \<Rightarrow> world \<Rightarrow> (error + province_row list) \<times> world" where
  "DB_Query_provinces env i w =
     (case round_trip env (Query (SelectProvinces i)) w of
        (Some e, w') \<Rightarrow> (Inl e, w')
      | (None, w') \<Rightarrow> (Inr (select_provinces i (db w')), w'))"

text \<open>
  The statement builder (squirrel 1.5.0, the version of \<^verbatim>\<open>go.mod\<close>): \<^verbatim>\<open>ExecContext\<close> first
  renders the statement with \<^verbatim>\<open>ToSql\<close> and hands it to the runner only if that succeeds.
  \<^verbatim>\<open>ToSql\<close> of an \<^verbatim>\<open>INSERT\<close> refuses a builder that was given no \<^verbatim>\<open>Values\<close>.
\<close>

definition InsertBuilder_ToSql :: "'a list \<Rightarrow> error option" where
  "InsertBuilder_ToSql vals =
     (if vals = []
      then Some (errors_New
             ''insert statements must have at least one set of values or select clause'')
      else None)"

section \<open>The repositories\<close>

subsection \<open>\<^verbatim>\<open>countryRepo\<close>\<close>

definition country_values :: "Country \<Rightarrow> Entity" where
  "country_values c =
     \<lparr>ID = ID c, Name = Name c, Total = Total c, NewCase = NewCase c, Treated = Treated c,
      DecoveringCase = DecoveringCase c, TestCase = TestCase c, Dead = Dead c,
      NegativeTest = NegativeTest c, UpdatedAt = UpdatedAt c\<rparr>"

text \<open>
  The loop of \<^verbatim>\<open>Save\<close> that adds one \<^verbatim>\<open>Values\<close> row for each province, with the
  identifier of the country in column \<^verbatim>\<open>country_id\<close>; \<open>None\<close> when it panics on a nil
  element (\<^verbatim>\<open>&p.ID\<close>).
\<close>

definition province_value :: "string \<Rightarrow> Province \<Rightarrow> province_row" where
  "province_value cid p =
     \<lparr>ID = ID p, Name = Name p, Total = Total p, NewCase = NewCase p, Treated = Treated p,
      DecoveringCase = DecoveringCase p, TestCase = TestCase p, Dead = Dead p,
      NegativeTest = NegativeTest p, UpdatedAt = UpdatedAt p, country_id = cid\<rparr>"

fun province_values :: "string \<Rightarrow> Province option list \<Rightarrow> province_row list option" where
  "province_values cid [] = Some []"
| "province_values cid (None # ps) = None"
| "province_values cid (Some p # ps) =
     (case province_values cid ps of
        None \<Rightarrow> None
      | Some rows \<Rightarrow> Some (province_value cid p # rows))"

text \<open>
  The deferred function of \<^verbatim>\<open>Save\<close>. It reads the variable \<^verbatim>\<open>err\<close> of the enclosing
  function, passed here as \<open>err\<close>: when that is nil it commits, and returns if the commit
  failed; in every other case it goes on to \<^verbatim>\<open>tx.Rollback()\<close>.
\<close>

definition Save_deferred :: "env \<Rightarrow> error option \<Rightarrow> tx \<Rightarrow> world \<Rightarrow> world" where
  "Save_deferred env err t w =
     (if err = None then
        (case Tx_Commit env t w of
           (Some commitErr, t', w') \<Rightarrow> w'
         | (None, t', w') \<Rightarrow> snd (snd (Tx_Rollback env t' w')))
      else snd (snd (Tx_Rollback env t w)))"

text \<open>
  \<^verbatim>\<open>Save\<close>. The variable \<^verbatim>\<open>err\<close> that the deferred function reads is the one declared by
  \<^verbatim>\<open>tx, err := cr.db.BeginTx(...)\<close>. Each \<^verbatim>\<open>if _, err := ...; err != nil { return err }\<close>
  declares a new \<^verbatim>\<open>err\<close> in the scope of its \<^verbatim>\<open>if\<close>, and the result of \<^verbatim>\<open>Save\<close> is not a named
  result, so once \<^verbatim>\<open>BeginTx\<close> has succeeded the outer \<^verbatim>\<open>err\<close> is nil on every path. The
  deferred function also runs when the loop panics.
\<close>

definition countryRepo_Save :: "env \<Rightarrow> Country \<Rightarrow> world \<Rightarrow> error option result \<times> world" where
  "countryRepo_Save env c w =
     (case DB_BeginTx env w of
        (Inl err, w1) \<Rightarrow> (Return (Some err), w1)
      | (Inr t, w1) \<Rightarrow>
          (let err = None in
           (case Tx_ExecContext env (InsertCountry (country_values c)) t w1 of
             (Some e, t2, w2) \<Rightarrow> (Return (Some e), Save_deferred env err t2 w2)
           | (None, t2, w2) \<Rightarrow>
               (case province_values (ID c) (elems (Provinces c)) of
                  None \<Rightarrow> (Panic, Save_deferred env err t2 w2)
                | Some rows \<Rightarrow>
                    (case InsertBuilder_ToSql rows of
                       Some e \<Rightarrow> (Return (Some e), Save_deferred env err t2 w2)
                     | None \<Rightarrow>
                         (case Tx_ExecContext env (InsertProvinces rows) t2 w2 of
                            (Some e, t3, w3) \<Rightarrow>
                              (Return (Some e), Save_deferred env err t3 w3)
                          | (None, t3, w3) \<Rightarrow>
                              (Return None, Save_deferred env err t3 w3)))))))"

definition countryRepo_Update_stmt :: "Country \<Rightarrow> stmt" where
  "countryRepo_Update_stmt c =
     UpdateCountry (ID c) (Name c) (Total c) (NewCase c) (Treated c) (DecoveringCase c)
       (TestCase c) (Dead c) (NegativeTest c) (UpdatedAt c)"

definition countryRepo_Update :: "env \<Rightarrow> Country \<Rightarrow> world \<Rightarrow> error option \<times> world" where
  "countryRepo_Update env c w = DB_ExecContext env (countryRepo_Update_stmt c) w"

text \<open>
  \<^verbatim>\<open>GetByID\<close>. A province is scanned into a fresh \<^verbatim>\<open>Province\<close>, whose \<^verbatim>\<open>Districts\<close> stay nil.
  The slice \<^verbatim>\<open>ps\<close> is made by \<^verbatim>\<open>make(Provinces, 0)\<close>, so it is not nil even when no row is
  appended. The round trip \<open>Rows\<close> stands for the reading of the rows: a failure of
  \<^verbatim>\<open>rows.Scan\<close> or of \<^verbatim>\<open>rows.Err\<close>.
\<close>

definition scan_province :: "province_row \<Rightarrow> Province" where
  "scan_province r =
     \<lparr>ID = ID r, Name = Name r, Total = Total r, NewCase = NewCase r, Treated = Treated r,
      DecoveringCase = DecoveringCase r, TestCase = TestCase r, Dead = Dead r,
      NegativeTest = NegativeTest r, UpdatedAt = UpdatedAt r, Districts = None\<rparr>"

definition countryRepo_GetByID ::
  "env \<Rightarrow> string \<Rightarrow> world \<Rightarrow> (Country option \<times> error option) \<times> world" where
  "countryRepo_GetByID env i w =
     (case DB_QueryRow_country env i w of
        (Inl err, w1) \<Rightarrow>
          if err = ErrNoRows then ((None, Some errNotFound), w1) else ((None, Some err), w1)
      | (Inr r, w1) \<Rightarrow>
          (case DB_Query_provinces env i w1 of
             (Inl err, w2) \<Rightarrow> ((None, Some err), w2)
           | (Inr rows, w2) \<Rightarrow>
               (case round_trip env Rows w2 of
                  (Some err, w3) \<Rightarrow> ((None, Some err), w3)
                | (None, w3) \<Rightarrow>
                    ((Some \<lparr>ID = ID r, Name = Name r, Total = Total r, NewCase = NewCase r,
                            Treated = Treated r, DecoveringCase = DecoveringCase r,
                            TestCase = TestCase r, Dead = Dead r,
                            NegativeTest = NegativeTest r, UpdatedAt = UpdatedAt r,
                            Provinces = Some (map (\<lambda>row. Some (scan_province row)) rows)\<rparr>,
                      None), w3))))"

subsection \<open>\<^verbatim>\<open>provinceRepo\<close>\<close>

definition provinceRepo_Save :: "env \<Rightarrow> Province \<Rightarrow> world \<Rightarrow> error option \<times> world" where
  "provinceRepo_Save env p w = (None, w)"

definition provinceRepo_Update_stmt :: "Province \<Rightarrow> stmt" where
  "provinceRepo_Update_stmt p =
     UpdateProvinces (ID p) (Name p) (Total p) (Treated p) (DecoveringCase p) (TestCase p)
       (Dead p) (NegativeTest p) (UpdatedAt p)"

definition provinceRepo_Update :: "env \<Rightarrow> Province \<Rightarrow> world \<Rightarrow> error option \<times> world" where
  "provinceRepo_Update env p w = DB_ExecContext env (provinceRepo_Update_stmt p) w"

definition provinceRepo_Delete :: "env \<Rightarrow> Province \<Rightarrow> world \<Rightarrow> error option \<times> world" where
  "provinceRepo_Delete env p w = (None, w)"

definition provinceRepo_GetByID ::
  "env \<Rightarrow> string \<Rightarrow> world \<Rightarrow> (Province option \<times> error option) \<times> world" where
  "provinceRepo_GetByID env i w = ((None, None), w)"

definition provinceRepo_GetAll ::
  "env \<Rightarrow> world \<Rightarrow> (Province option list option \<times> error option) \<times> world" where
  "provinceRepo_GetAll env w = ((None, None), w)"

section \<open>The services\<close>

text \<open>
  A handler answers with \<^verbatim>\<open>c.JSON(status, body)\<close>. Its input is what \<^verbatim>\<open>c.Bind\<close> made of the
  request: \<open>None\<close> when the payload does not parse. \<^verbatim>\<open>main\<close> gives the services the two
  repositories above.
\<close>

datatype body =
    ErrorMsg string
  | country_body "Country option"
  | province_body "Province option"

datatype response = JSON nat body

definition StatusOK :: nat where
  "StatusOK = 200"

definition StatusBadRequest :: nat where
  "StatusBadRequest = 400"

definition StatusNotFound :: nat where
  "StatusNotFound = 404"

definition StatusUnprocessableEntity :: nat where
  "StatusUnprocessableEntity = 422"

definition StatusInternalServerError :: nat where
  "StatusInternalServerError = 500"

definition FindByCountryID :: "env \<Rightarrow> string \<Rightarrow> world \<Rightarrow> response \<times> world" where
  "FindByCountryID env param w =
     (case countryRepo_GetByID env (EscapeString (TrimSpace param)) w of
        ((c, Some err), w1) \<Rightarrow>
          if err = errNotFound then (JSON StatusNotFound (ErrorMsg (Error err)), w1)
          else (JSON StatusInternalServerError (ErrorMsg ''Internal server error''), w1)
      | ((c, None), w1) \<Rightarrow> (JSON StatusOK (country_body c), w1))"

text \<open>The loop of \<^verbatim>\<open>Store\<close> over the provinces; \<open>Inr\<close> carries the provinces as it leaves them.\<close>

fun Store_provinces ::
  "env \<Rightarrow> Province option list \<Rightarrow> world \<Rightarrow>
     (response result + Province option list) \<times> world" where
  "Store_provinces env [] w = (Inr [], w)"
| "Store_provinces env (None # ps) w = (Inl Panic, w)"
| "Store_provinces env (Some p # ps) w =
     (let p1 = Province_Prepare p in
      (case Province_BeforeSave env p1 w of (p2, w1) \<Rightarrow>
      (case time_Now env w1 of (t, w2) \<Rightarrow>
      (let p3 = p2\<lparr>UpdatedAt := t\<rparr> in
      (case Province_Validate p3 of
        Some err \<Rightarrow> (Inl (Return (JSON StatusBadRequest (ErrorMsg (Error err)))), w2)
      | None \<Rightarrow>
          (case Store_provinces env ps w2 of
             (Inl out, w3) \<Rightarrow> (Inl out, w3)
           | (Inr ps', w3) \<Rightarrow> (Inr (Some p3 # ps'), w3)))))))"

definition Store :: "env \<Rightarrow> Country option \<Rightarrow> world \<Rightarrow> response result \<times> world" where
  "Store env bound w =
     (case bound of
        None \<Rightarrow>
          (Return (JSON StatusUnprocessableEntity
             (ErrorMsg ''request: unable to parse request payload'')), w)
      | Some country0 \<Rightarrow>
          (let country1 = Country_Prepare country0 in
           (case Country_BeforeSave env country1 w of (country2, w1) \<Rightarrow>
           (case time_Now env w1 of (t, w2) \<Rightarrow>
           (let country3 = country2\<lparr>UpdatedAt := t\<rparr> in
           (case Country_Validate country3 of
             Some err \<Rightarrow> (Return (JSON StatusBadRequest (ErrorMsg (Error err))), w2)
           | None \<Rightarrow>
               (case Store_provinces env (elems (Provinces country3)) w2 of
                  (Inl out, w3) \<Rightarrow> (out, w3)
                | (Inr ps, w3) \<Rightarrow>
                    (let country4 =
                           country3\<lparr>Provinces := set_elems (Provinces country3) ps\<rparr> in
                     case countryRepo_Save env country4 w3 of
                       (Panic, w4) \<Rightarrow> (Panic, w4)
                     | (Return (Some err), w4) \<Rightarrow>
                         (Return (JSON StatusInternalServerError
                            (ErrorMsg ''Internal server error'')), w4)
                     | (Return None, w4) \<Rightarrow>
                         (Return (JSON StatusOK (country_body (Some country4))), w4)))))))))"

text \<open>
  The two loops of \<^verbatim>\<open>Edit\<close>: the first validates every province as the payload has it, the
  second prepares each province, stamps it and updates it.
\<close>

fun Edit_validate :: "Province option list \<Rightarrow> response result option" where
  "Edit_validate [] = None"
| "Edit_validate (None # ps) = Some Panic"
| "Edit_validate (Some p # ps) =
     (case Province_Validate p of
        Some err \<Rightarrow> Some (Return (JSON StatusBadRequest (ErrorMsg (Error err))))
      | None \<Rightarrow> Edit_validate ps)"

fun Edit_update ::
  "env \<Rightarrow> Province option list \<Rightarrow> world \<Rightarrow>
     (response result + Province option list) \<times> world" where
  "Edit_update env [] w = (Inr [], w)"
| "Edit_update env (None # ps) w = (Inl Panic, w)"
| "Edit_update env (Some p # ps) w =
     (let p1 = Province_Prepare p in
      (case time_Now env w of (t, w1) \<Rightarrow>
      (let p2 = p1\<lparr>UpdatedAt := t\<rparr> in
      (case provinceRepo_Update env p2 w1 of
        (Some err, w2) \<Rightarrow>
          (Inl (Return (JSON StatusInternalServerError
             (ErrorMsg ''Internal server error, could not update province information''))),
           w2)
      | (None, w2) \<Rightarrow>
          (case Edit_update env ps w2 of
             (Inl out, w3) \<Rightarrow> (Inl out, w3)
           | (Inr ps', w3) \<Rightarrow> (Inr (Some p2 # ps'), w3))))))"

definition Edit :: "env \<Rightarrow> Country option \<Rightarrow> world \<Rightarrow> response result \<times> world" where
  "Edit env bound w =
     (case bound of
        None \<Rightarrow>
          (Return (JSON StatusUnprocessableEntity
             (ErrorMsg ''request: unable to parse request payload'')), w)
      | Some country0 \<Rightarrow>
          (let country1 = Country_Prepare country0 in
           (case time_Now env w of (t, w1) \<Rightarrow>
           (let country2 = country1\<lparr>UpdatedAt := t\<rparr> in
           (case Country_Validate country2 of
             Some err \<Rightarrow> (Return (JSON StatusBadRequest (ErrorMsg (Error err))), w1)
           | None \<Rightarrow>
               (case Edit_validate (elems (Provinces country2)) of
                  Some out \<Rightarrow> (out, w1)
                | None \<Rightarrow>
                    (case Edit_update env (elems (Provinces country2)) w1 of
                       (Inl out, w2) \<Rightarrow> (out, w2)
                     | (Inr ps, w2) \<Rightarrow>
                         (let country3 =
                                country2\<lparr>Provinces := set_elems (Provinces country2) ps\<rparr> in
                          case countryRepo_Update env country3 w2 of
                            (Some err, w3) \<Rightarrow>
                              (Return (JSON StatusInternalServerError
                                 (ErrorMsg ''Internal server error'')), w3)
                          | (None, w3) \<Rightarrow>
                              (Return (JSON StatusOK (country_body (Some country3))), w3)))))))))"

definition UpdateProvince :: "env \<Rightarrow> Province option \<Rightarrow> world \<Rightarrow> response result \<times> world" where
  "UpdateProvince env bound w =
     (case bound of
        None \<Rightarrow>
          (Return (JSON StatusUnprocessableEntity
             (ErrorMsg ''request: unable to parse request payload'')), w)
      | Some p0 \<Rightarrow>
          (let p1 = Province_Prepare p0 in
           (case time_Now env w of (t, w1) \<Rightarrow>
           (let p2 = p1\<lparr>UpdatedAt := t\<rparr> in
           (case Province_Validate p2 of
             Some err \<Rightarrow> (Return (JSON StatusBadRequest (ErrorMsg (Error err))), w1)
           | None \<Rightarrow>
               (case provinceRepo_Update env p2 w1 of
                  (Some err, w2) \<Rightarrow>
                    (Return (JSON StatusInternalServerError
                       (ErrorMsg
                          ''Internal server error, could not update province information'')),
                     w2)
                | (None, w2) \<Rightarrow> (Return (JSON StatusOK (province_body (Some p2))), w2)))))))"

section \<open>The statements of a failing edit\<close>

text \<open>
  The statements that the second loop of \<^verbatim>\<open>Edit\<close> issues for the provinces \<open>ps\<close>, one
  \<^verbatim>\<open>provinceRepo.Update\<close> for each, when the clock was read \<open>t\<close> times before the loop.
\<close>

fun Edit_stmts :: "env \<Rightarrow> nat \<Rightarrow> Province option list \<Rightarrow> stmt list" where
  "Edit_stmts env t [] = []"
| "Edit_stmts env t (None # ps) = []"
| "Edit_stmts env t (Some p # ps) =
     provinceRepo_Update_stmt ((Province_Prepare p)\<lparr>UpdatedAt := now env t\<rparr>) #
       Edit_stmts env (Suc t) ps"

section \<open>Sample inputs\<close>

text \<open>
  An environment in which the store never fails, one in which exactly the round trip
  number \<open>k\<close> fails, and a few tables and payloads on which the theorems below are
  evaluated.
\<close>

definition quiet :: env where
  "quiet = \<lparr>now = (\<lambda>n. 1000 + n), NewV4 = (\<lambda>n. ''id-'' @ replicate n CHR ''x''),
     fault = (\<lambda>n. None)\<rparr>"

definition flaky :: "nat \<Rightarrow> env" where
  "flaky k = \<lparr>now = (\<lambda>n. 1000 + n), NewV4 = (\<lambda>n. ''id-'' @ replicate n CHR ''x''),
     fault = (\<lambda>n. if n = k then Some (driver_error ''connection reset'') else None)\<rparr>"

definition laos_row :: Entity where
  "laos_row = \<lparr>ID = ''c1'', Name = ''Laos'', Total = 10, NewCase = 1, Treated = 2,
     DecoveringCase = 3, TestCase = 4, Dead = 5, NegativeTest = 6, UpdatedAt = 7\<rparr>"

definition vientiane_row :: province_row where
  "vientiane_row = \<lparr>ID = ''p1'', Name = ''Vientiane'', Total = 8, NewCase = 1, Treated = 2,
     DecoveringCase = 3, TestCase = 4, Dead = 5, NegativeTest = 6, UpdatedAt = 7,
     country_id = ''c1''\<rparr>"

definition pakse_row :: province_row where
  "pakse_row = \<lparr>ID = ''p2'', Name = ''Pakse'', Total = 9, NewCase = 1, Treated = 2,
     DecoveringCase = 3, TestCase = 4, Dead = 5, NegativeTest = 6, UpdatedAt = 7,
     country_id = ''c1''\<rparr>"

definition empty_world :: world where
  "empty_world = \<lparr>db = \<lparr>country_tbl = [], provinces_tbl = []\<rparr>,
     calls = [], ticks = 0, uuids_used = 0\<rparr>"

definition bare_world :: world where
  "bare_world = \<lparr>db = \<lparr>country_tbl = [laos_row], provinces_tbl = []\<rparr>,
     calls = [], ticks = 0, uuids_used = 0\<rparr>"

definition laos_world :: world where
  "laos_world = \<lparr>db = \<lparr>country_tbl = [laos_row], provinces_tbl = [vientiane_row]\<rparr>,
     calls = [], ticks = 0, uuids_used = 0\<rparr>"

definition two_world :: world where
  "two_world = \<lparr>db = \<lparr>country_tbl = [laos_row], provinces_tbl = [vientiane_row, pakse_row]\<rparr>,
     calls = [], ticks = 0, uuids_used = 0\<rparr>"

definition province_of :: "string \<Rightarrow> string \<Rightarrow> int64 \<Rightarrow> Province" where
  "province_of i n t = \<lparr>ID = i, Name = n, Total = t, NewCase = 91, Treated = 92,
     DecoveringCase = 93, TestCase = 94, Dead = 95, NegativeTest = 96, UpdatedAt = 0,
     Districts = None\<rparr>"

definition thai :: Country where
  "thai = \<lparr>ID = [], Name = ''  <b>Thai</b>  '', Total = 0, NewCase = 0, Treated = 0,
     DecoveringCase = 0, TestCase = 0, Dead = 0, NegativeTest = 0, UpdatedAt = 0,
     Provinces = None\<rparr>"

definition laos_edit :: Country where
  "laos_edit = \<lparr>ID = ''c1'', Name = '' Lao PDR '', Total = 20, NewCase = 11, Treated = 12,
     DecoveringCase = 13, TestCase = 14, Dead = 15, NegativeTest = 16, UpdatedAt = 0,
     Provinces = None\<rparr>"

definition laos_new :: Country where
  "laos_new = \<lparr>ID = ''id-'', Name = ''Laos'', Total = 10, NewCase = 1, Treated = 2,
     DecoveringCase = 3, TestCase = 4, Dead = 5, NegativeTest = 6, UpdatedAt = 1000,
     Provinces = Some []\<rparr>"

definition two_edit :: Country where
  "two_edit = laos_edit\<lparr>Provinces :=
     Some [Some (province_of ''p1'' '' Vientiane <1> '' 80), Some (province_of ''p2'' ''Pakse'' 90)]\<rparr>"

definition blank_edit :: Country where
  "blank_edit = laos_edit\<lparr>Provinces := Some [Some (province_of ''p1'' ''   '' 80)]\<rparr>"

definition thailand :: Country where
  "thailand = \<lparr>ID = [], Name = ''Thailand'', Total = 150, NewCase = 0, Treated = 0,
     DecoveringCase = 0, TestCase = 0, Dead = 0, NegativeTest = 0, UpdatedAt = 0,
     Provinces = Some [Some (province_of [] ''Chiang Mai'' 50), Some (province_of [] ''Bangkok'' 100)]\<rparr>"

section \<open>Properties of trimming and escaping\<close>

lemmas string_defs = TrimSpace_def TrimLeft.simps TrimRight.simps leading_space_def
  trailing_space_def space_runes_def EscapeString_def htmlEscaper_def

lemmas store_defs = round_trip_def DB_BeginTx_def Tx_ExecContext_def Tx_Commit_def
  Tx_Rollback_def DB_ExecContext_def DB_QueryRow_country_def DB_Query_provinces_def
  select_country_def select_provinces_def InsertBuilder_ToSql_def time_Now_def uuid_NewV4_def

lemmas repo_defs = country_values_def province_value_def Save_deferred_def countryRepo_Save_def
  countryRepo_Update_stmt_def countryRepo_Update_def scan_province_def countryRepo_GetByID_def
  provinceRepo_Update_stmt_def provinceRepo_Update_def

lemmas service_defs = Province_Prepare_def Province_Validate_def Country_Prepare_def
  Country_Validate_def Province_BeforeSave_def Country_BeforeSave_def Store_def Edit_def
  UpdateProvince_def FindByCountryID_def Let_def

lemmas sample_defs = quiet_def laos_row_def vientiane_row_def laos_world_def laos_edit_def

lemmas sample_defs2 = sample_defs flaky_def pakse_row_def two_world_def province_of_def two_edit_def

lemma take_eq_prefix: "take (length u) s = u \<longleftrightarrow> prefix u s"
  by (metis append_eq_conv_conj prefix_def)

lemma drop_eq_suffix: "drop (length s - length u) s = u \<longleftrightarrow> suffix u s"
  by (metis suffix_def suffix_drop append_eq_conv_conj length_append add_diff_cancel_right')

lemma leading_space_Some:
  "leading_space s = Some u \<Longrightarrow> u \<in> set space_runes \<and> take (length u) s = u"
  unfolding leading_space_def by (auto simp: find_Some_iff)

lemma trailing_space_Some:
  "trailing_space s = Some u \<Longrightarrow>
     u \<in> set space_runes \<and> drop (length s - length u) s = u"
  unfolding trailing_space_def by (auto simp: find_Some_iff)

lemma leading_space_None:
  "leading_space s = None \<longleftrightarrow> (\<forall>u\<in>set space_runes. \<not> prefix u s)"
  by (auto simp: leading_space_def find_None_iff take_eq_prefix)

lemma trailing_space_None:
  "trailing_space s = None \<longleftrightarrow> (\<forall>u\<in>set space_runes. \<not> suffix u s)"
  by (auto simp: trailing_space_def find_None_iff drop_eq_suffix)

lemma TrimLeft_id: "leading_space s = None \<Longrightarrow> TrimLeft s = s"
  by (simp add: TrimLeft.simps [of s])

lemma TrimRight_id: "trailing_space s = None \<Longrightarrow> TrimRight s = s"
  by (simp add: TrimRight.simps [of s])

lemma TrimLeft_step: "leading_space s = Some u \<Longrightarrow> TrimLeft s = TrimLeft (drop (length u) s)"
  by (simp add: TrimLeft.simps [of s])

lemma TrimRight_step:
  "trailing_space s = Some u \<Longrightarrow> TrimRight s = TrimRight (take (length s - length u) s)"
  by (simp add: TrimRight.simps [of s])

lemma TrimLeft_no_leading: "leading_space (TrimLeft s) = None"
proof (induction s rule: TrimLeft.induct)
  case (1 s)
  then show ?case
    by (cases "leading_space s") (simp_all add: TrimLeft_id TrimLeft_step)
qed

lemma TrimRight_no_trailing: "trailing_space (TrimRight s) = None"
proof (induction s rule: TrimRight.induct)
  case (1 s)
  then show ?case
    by (cases "trailing_space s") (simp_all add: TrimRight_id TrimRight_step)
qed

lemma TrimRight_prefix: "prefix (TrimRight s) s"
proof (induction s rule: TrimRight.induct)
  case (1 s)
  show ?case
  proof (cases "trailing_space s")
    case None
    then show ?thesis by (simp add: TrimRight_id)
  next
    case (Some u)
    with "1" have "prefix (TrimRight s) (take (length s - length u) s)"
      by (simp add: TrimRight_step)
    then show ?thesis using take_is_prefix prefix_order.trans by blast
  qed
qed

lemma TrimSpace_no_leading: "leading_space (TrimSpace s) = None"
proof -
  have "\<not> prefix u (TrimRight (TrimLeft s))" if "u \<in> set space_runes" for u
  proof
    assume "prefix u (TrimRight (TrimLeft s))"
    then have "prefix u (TrimLeft s)"
      using TrimRight_prefix prefix_order.trans by blast
    with that TrimLeft_no_leading [of s] show False
      by (simp add: leading_space_None)
  qed
  then show ?thesis by (simp add: TrimSpace_def leading_space_None)
qed

lemma TrimSpace_no_trailing: "trailing_space (TrimSpace s) = None"
  by (simp add: TrimSpace_def TrimRight_no_trailing)

lemma TrimSpace_id:
  "leading_space s = None \<Longrightarrow> trailing_space s = None \<Longrightarrow> TrimSpace s = s"
  by (simp add: TrimSpace_def TrimLeft_id TrimRight_id)

lemma space_runes_plain:
  "u \<in> set space_runes \<Longrightarrow>
     CHR ''&'' \<notin> set u \<and> CHR '';'' \<notin> set u \<and> set u \<inter> metachars = {}"
  by (auto simp: space_runes_def metachars_def)

lemma htmlEscaper_plain: "c \<notin> metachars \<Longrightarrow> htmlEscaper c = [c]"
  by (simp add: htmlEscaper_def metachars_def)

lemma htmlEscaper_meta:
  "c \<in> metachars \<Longrightarrow>
     hd (htmlEscaper c) = CHR ''&'' \<and> last (htmlEscaper c) = CHR '';'' \<and>
     1 < length (htmlEscaper c)"
  by (auto simp: htmlEscaper_def metachars_def)

lemma EscapeString_Nil: "EscapeString [] = []"
  by (simp add: EscapeString_def)

lemma EscapeString_Cons: "EscapeString (c # s) = htmlEscaper c @ EscapeString s"
  by (simp add: EscapeString_def)

lemma EscapeString_append: "EscapeString (s @ t) = EscapeString s @ EscapeString t"
  by (simp add: EscapeString_def)

lemma prefix_EscapeString:
  "CHR ''&'' \<notin> set u \<Longrightarrow> prefix u (EscapeString s) \<Longrightarrow> prefix u s"
proof (induction s arbitrary: u)
  case Nil
  then show ?case by (simp add: EscapeString_Nil)
next
  case (Cons c s)
  show ?case
  proof (cases u)
    case Nil
    then show ?thesis by simp
  next
    case u: (Cons x v)
    show ?thesis
    proof (cases "c \<in> metachars")
      case True
      then obtain r where "htmlEscaper c = CHR ''&'' # r"
        using htmlEscaper_meta [of c] by (cases "htmlEscaper c") auto
      with Cons.prems u show ?thesis by (simp add: EscapeString_Cons)
    next
      case False
      with Cons.prems u have "x = c" "prefix v (EscapeString s)" "CHR ''&'' \<notin> set v"
        by (simp_all add: EscapeString_Cons htmlEscaper_plain)
      with Cons.IH [of v] u show ?thesis by simp
    qed
  qed
qed

lemma suffix_EscapeString:
  "CHR '';'' \<notin> set u \<Longrightarrow> suffix u (EscapeString s) \<Longrightarrow> suffix u s"
proof (induction s arbitrary: u rule: rev_induct)
  case Nil
  then show ?case by (simp add: EscapeString_Nil)
next
  case (snoc c s)
  show ?case
  proof (cases u rule: rev_cases)
    case Nil
    then show ?thesis by simp
  next
    case u: (snoc v x)
    show ?thesis
    proof (cases "c \<in> metachars")
      case True
      then obtain r where "htmlEscaper c = r @ [CHR '';'']"
        using htmlEscaper_meta [of c] by (cases "htmlEscaper c" rule: rev_cases) auto
      with snoc.prems u show ?thesis
        by (simp add: EscapeString_append EscapeString_Cons EscapeString_Nil
            flip: append_assoc)
    next
      case False
      with snoc.prems u have "x = c" "suffix v (EscapeString s)" "CHR '';'' \<notin> set v"
        by (simp_all add: EscapeString_append EscapeString_Cons EscapeString_Nil
            htmlEscaper_plain)
      with snoc.IH [of v] u show ?thesis by simp
    qed
  qed
qed

lemma EscapeString_no_leading:
  "leading_space s = None \<Longrightarrow> leading_space (EscapeString s) = None"
  using prefix_EscapeString space_runes_plain by (fastforce simp: leading_space_None)

lemma EscapeString_no_trailing:
  "trailing_space s = None \<Longrightarrow> trailing_space (EscapeString s) = None"
  using suffix_EscapeString space_runes_plain by (fastforce simp: trailing_space_None)

text \<open>What \<^verbatim>\<open>Prepare\<close> makes of a name has no white space left to trim.\<close>

lemma TrimSpace_EscapeString_TrimSpace:
  "TrimSpace (EscapeString (TrimSpace s)) = EscapeString (TrimSpace s)"
  by (intro TrimSpace_id EscapeString_no_leading EscapeString_no_trailing
      TrimSpace_no_leading TrimSpace_no_trailing)

lemma EscapeString_plain: "set s \<inter> metachars = {} \<Longrightarrow> EscapeString s = s"
  by (induction s) (simp_all add: EscapeString_Nil EscapeString_Cons htmlEscaper_plain)

lemma length_EscapeString: "length s \<le> length (EscapeString s)"
proof (induction s)
  case Nil
  then show ?case by (simp add: EscapeString_Nil)
next
  case (Cons c s)
  have "1 \<le> length (htmlEscaper c)"
    using htmlEscaper_meta [of c] htmlEscaper_plain [of c] by (cases "c \<in> metachars") auto
  with Cons show ?case by (simp add: EscapeString_Cons)
qed

lemma EscapeString_longer:
  "set s \<inter> metachars \<noteq> {} \<Longrightarrow> length s < length (EscapeString s)"
proof (induction s)
  case Nil
  then show ?case by simp
next
  case (Cons c s)
  show ?case
  proof (cases "c \<in> metachars")
    case True
    with htmlEscaper_meta [of c] length_EscapeString [of s] show ?thesis
      by (simp add: EscapeString_Cons)
  next
    case False
    with Cons show ?thesis by (simp add: EscapeString_Cons htmlEscaper_plain)
  qed
qed

lemma EscapeString_amp:
  "set s \<inter> metachars \<noteq> {} \<Longrightarrow> CHR ''&'' \<in> set (EscapeString s)"
proof (induction s)
  case Nil
  then show ?case by simp
next
  case (Cons c s)
  show ?case
  proof (cases "c \<in> metachars")
    case True
    then have "CHR ''&'' \<in> set (htmlEscaper c)"
      by (auto simp: htmlEscaper_def metachars_def)
    then show ?thesis by (simp add: EscapeString_Cons)
  next
    case False
    with Cons show ?thesis by (simp add: EscapeString_Cons htmlEscaper_plain)
  qed
qed

lemma set_TrimLeft: "set (TrimLeft s) \<inter> metachars = set s \<inter> metachars"
proof (induction s rule: TrimLeft.induct)
  case (1 s)
  show ?case
  proof (cases "leading_space s")
    case None
    then show ?thesis by (simp add: TrimLeft_id)
  next
    case (Some u)
    then have u: "set u \<inter> metachars = {}" and "take (length u) s = u"
      using leading_space_Some space_runes_plain by blast+
    then have "set s = set u \<union> set (drop (length u) s)"
      by (metis append_take_drop_id set_append)
    with u "1" Some show ?thesis
      by (auto simp: TrimLeft_step)
  qed
qed

lemma set_TrimRight: "set (TrimRight s) \<inter> metachars = set s \<inter> metachars"
proof (induction s rule: TrimRight.induct)
  case (1 s)
  show ?case
  proof (cases "trailing_space s")
    case None
    then show ?thesis by (simp add: TrimRight_id)
  next
    case (Some u)
    then have u: "set u \<inter> metachars = {}" and "drop (length s - length u) s = u"
      using trailing_space_Some space_runes_plain by blast+
    then have "set s = set (take (length s - length u) s) \<union> set u"
      by (metis append_take_drop_id set_append)
    with u "1" Some show ?thesis
      by (auto simp: TrimRight_step)
  qed
qed

lemma set_TrimSpace: "set (TrimSpace s) \<inter> metachars = set s \<inter> metachars"
  by (simp add: TrimSpace_def set_TrimRight set_TrimLeft)

text \<open>
  Trimming and escaping a second time changes nothing exactly when the name has none of
  the five bytes that are escaped: otherwise the first pass has written an \<^verbatim>\<open>&\<close>, which the
  second pass escapes again.
\<close>

lemma sanitize_twice:
  "EscapeString (TrimSpace (EscapeString (TrimSpace s))) = EscapeString (TrimSpace s)
     \<longleftrightarrow> set s \<inter> metachars = {}"
proof
  assume eq: "EscapeString (TrimSpace (EscapeString (TrimSpace s))) = EscapeString (TrimSpace s)"
  show "set s \<inter> metachars = {}"
  proof (rule ccontr)
    assume "set s \<inter> metachars \<noteq> {}"
    then have "set (TrimSpace s) \<inter> metachars \<noteq> {}"
      by (simp add: set_TrimSpace)
    then have "CHR ''&'' \<in> set (EscapeString (TrimSpace s))"
      by (rule EscapeString_amp)
    then have "set (EscapeString (TrimSpace s)) \<inter> metachars \<noteq> {}"
      by (auto simp: metachars_def)
    then have "length (EscapeString (TrimSpace s))
        < length (EscapeString (EscapeString (TrimSpace s)))"
      by (rule EscapeString_longer)
    with eq show False by (simp add: TrimSpace_EscapeString_TrimSpace)
  qed
next
  assume "set s \<inter> metachars = {}"
  then have "set (TrimSpace s) \<inter> metachars = {}"
    by (simp add: set_TrimSpace)
  then have e: "EscapeString (TrimSpace s) = TrimSpace s"
    by (rule EscapeString_plain)
  have "EscapeString (TrimSpace (EscapeString (TrimSpace s)))
      = EscapeString (EscapeString (TrimSpace s))"
    by (simp only: TrimSpace_EscapeString_TrimSpace)
  also have "\<dots> = EscapeString (TrimSpace s)"
    by (simp only: e)
  finally show "EscapeString (TrimSpace (EscapeString (TrimSpace s))) = EscapeString (TrimSpace s)" .
qed

lemma Name_update_eq:
  "(r\<lparr>Name := a\<rparr> = r\<lparr>Name := b\<rparr>) = (a = b)" for r :: "'a Entity_scheme"
  by (metis Entity.select_convs(2) Entity.surjective Entity.update_convs(2))

text \<open>
  No white space rune is the beginning of another one, so a name made of white space runes
  only is trimmed rune by rune down to the empty name.
\<close>

lemma space_runes_width:
  "u \<in> set space_runes \<Longrightarrow>
     u \<noteq> [] \<and>
     length u =
       (if hd u = CHR 0xC2 then 2
        else if hd u \<in> {CHR 0xE1, CHR 0xE2, CHR 0xE3} then 3 else 1)"
  by (auto simp: space_runes_def)

lemma space_runes_prefix_free:
  assumes "u \<in> set space_runes" and "v \<in> set space_runes" and "prefix u v"
  shows "u = v"
proof -
  from assms(3) obtain z where v: "v = u @ z" by (auto simp: prefix_def)
  from assms(1) have "u \<noteq> []" using space_runes_width by blast
  with v have "hd v = hd u" by simp
  with space_runes_width [OF assms(1)] space_runes_width [OF assms(2)]
  have "length v = length u" by simp
  with v show ?thesis by simp
qed

lemma leading_space_append:
  assumes "u \<in> set space_runes"
  shows "leading_space (u @ s) = Some u"
proof (cases "leading_space (u @ s)")
  case None
  with assms show ?thesis by (auto simp: leading_space_None)
next
  case (Some v)
  then have v: "v \<in> set space_runes" and "take (length v) (u @ s) = v"
    using leading_space_Some [of "u @ s" v] by blast+
  then have "prefix v (u @ s)"
    using take_eq_prefix [of v "u @ s"] by blast
  then have "prefix u v \<or> prefix v u"
    using prefix_same_cases [of u "u @ s" v] by auto
  with assms v have "u = v"
    using space_runes_prefix_free by blast
  with Some show ?thesis by simp
qed

lemma TrimLeft_spaces:
  "set us \<subseteq> set space_runes \<Longrightarrow> TrimLeft (concat us @ s) = TrimLeft s"
proof (induction us)
  case Nil
  then show ?case by simp
next
  case (Cons u us)
  then have "leading_space (u @ concat us @ s) = Some u"
    by (simp add: leading_space_append)
  then have "TrimLeft (u @ concat us @ s) = TrimLeft (concat us @ s)"
    using TrimLeft_step [of "u @ concat us @ s" u] by simp
  with Cons show ?case by simp
qed

lemma TrimSpace_Nil: "TrimSpace [] = []"
proof -
  have "leading_space [] = None" "trailing_space [] = None"
    by (simp_all add: leading_space_def trailing_space_def space_runes_def)
  then show ?thesis by (simp add: TrimSpace_id)
qed

lemma blank_name_is_trimmed_away:
  assumes "set us \<subseteq> set space_runes"
  shows "EscapeString (TrimSpace (concat us)) = []"
proof -
  have "TrimLeft (concat us @ []) = TrimLeft []"
    using assms by (rule TrimLeft_spaces)
  moreover have "TrimLeft [] = []" "TrimRight [] = []"
    using TrimSpace_Nil
    by (simp_all add: TrimLeft_id TrimRight_id leading_space_def trailing_space_def space_runes_def)
  ultimately show ?thesis
    by (simp add: TrimSpace_def EscapeString_Nil)
qed

section \<open>Sanitizing twice\<close>

text \<open>
  Claim C5 says that \<^verbatim>\<open>Prepare\<close> (trim, then escape) is idempotent on \<^verbatim>\<open>Country\<close> and
  \<^verbatim>\<open>Province\<close> for every name, names with HTML metacharacters included. On the name
  \<^verbatim>\<open>"  <b>Thai</b>  "\<close> it is not: the first application gives
  \<^verbatim>\<open>&lt;b&gt;Thai&lt;/b&gt;\<close>, the second escapes each \<^verbatim>\<open>&\<close> of that again.
\<close>

theorem Prepare_twice_counterexample:
  "Name (Country_Prepare thai) = ''&lt;b&gt;Thai&lt;/b&gt;'' \<and>
   Name (Country_Prepare (Country_Prepare thai)) = ''&amp;lt;b&amp;gt;Thai&amp;lt;/b&amp;gt;'' \<and>
   Country_Prepare (Country_Prepare thai) \<noteq> Country_Prepare thai"
  by (simp add: thai_def Country_Prepare_def TrimSpace_def TrimLeft.simps TrimRight.simps
      leading_space_def trailing_space_def space_runes_def EscapeString_def htmlEscaper_def)

text \<open>
  Claim C5, amended: on \<^verbatim>\<open>Country\<close> and on \<^verbatim>\<open>Province\<close>, applying \<^verbatim>\<open>Prepare\<close> twice gives
  the same as applying it once if and only if the name contains none of the five bytes
  \<^verbatim>\<open>& ' < > "\<close>. Leading and trailing white space never stands in the way.
\<close>

theorem Prepare_idempotent_iff:
  "(Country_Prepare (Country_Prepare c) = Country_Prepare c \<longleftrightarrow> set (Name c) \<inter> metachars = {}) \<and>
   (Province_Prepare (Province_Prepare p) = Province_Prepare p \<longleftrightarrow> set (Name p) \<inter> metachars = {})"
  by (simp add: Country_Prepare_def Province_Prepare_def Name_update_eq sanitize_twice)

theorem Prepare_idempotent_witness:
  "Country_Prepare (Country_Prepare laos_edit) = Country_Prepare laos_edit \<and>
   Name (Country_Prepare laos_edit) = ''Lao PDR''"
proof -
  have "set (Name laos_edit) \<inter> metachars = {}"
    by (simp add: laos_edit_def metachars_def)
  with Prepare_idempotent_iff [of laos_edit] show ?thesis
    by (simp add: laos_edit_def Country_Prepare_def string_defs)
qed

section \<open>What the store operations leave alone\<close>

lemma DB_ExecContext_fault:
  "fault env (length (calls w)) = Some e \<Longrightarrow>
     DB_ExecContext env s w = (Some e, w\<lparr>calls := calls w @ [Exec s]\<rparr>)"
  by (simp add: DB_ExecContext_def round_trip_def)

lemma DB_ExecContext_ok:
  "fault env (length (calls w)) = None \<Longrightarrow>
     DB_ExecContext env s w = (None, w\<lparr>calls := calls w @ [Exec s], db := apply_stmt s (db w)\<rparr>)"
  by (simp add: DB_ExecContext_def round_trip_def)

lemma DB_ExecContext_cases:
  obtains e where "DB_ExecContext env s w = (Some e, w\<lparr>calls := calls w @ [Exec s]\<rparr>)"
  | "DB_ExecContext env s w = (None, w\<lparr>calls := calls w @ [Exec s], db := apply_stmt s (db w)\<rparr>)"
  by (cases "fault env (length (calls w))") (auto simp: DB_ExecContext_fault DB_ExecContext_ok)

lemma UpdateProvinces_frame:
  "country_tbl (apply_stmt (provinceRepo_Update_stmt p) t) = country_tbl t"
  "map NewCase (provinces_tbl (apply_stmt (provinceRepo_Update_stmt p) t)) = map NewCase (provinces_tbl t)"
  "map ID (provinces_tbl (apply_stmt (provinceRepo_Update_stmt p) t)) = map ID (provinces_tbl t)"
  by (simp_all add: provinceRepo_Update_stmt_def)

lemma UpdateCountry_frame:
  "provinces_tbl (apply_stmt (countryRepo_Update_stmt c) t) = provinces_tbl t"
  "map ID (country_tbl (apply_stmt (countryRepo_Update_stmt c) t)) = map ID (country_tbl t)"
  by (simp_all add: countryRepo_Update_stmt_def)

lemma provinceRepo_Update_frame:
  "country_tbl (db (snd (provinceRepo_Update env p w))) = country_tbl (db w)"
  "map NewCase (provinces_tbl (db (snd (provinceRepo_Update env p w)))) = map NewCase (provinces_tbl (db w))"
  "uuids_used (snd (provinceRepo_Update env p w)) = uuids_used w"
  "ticks (snd (provinceRepo_Update env p w)) = ticks w"
  unfolding provinceRepo_Update_def
  by (rule DB_ExecContext_cases [of env "provinceRepo_Update_stmt p" w];
      simp add: UpdateProvinces_frame)+

lemma provinceRepo_Update_result:
  assumes "provinceRepo_Update env p w = (r, w')"
  shows "country_tbl (db w') = country_tbl (db w)"
    and "map NewCase (provinces_tbl (db w')) = map NewCase (provinces_tbl (db w))"
    and "uuids_used w' = uuids_used w"
    and "r = fault env (length (calls w))"
    and "r = None \<Longrightarrow> db w' = apply_stmt (provinceRepo_Update_stmt p) (db w)"
  using assms unfolding provinceRepo_Update_def
  by (cases "fault env (length (calls w))";
      auto simp: UpdateProvinces_frame DB_ExecContext_def round_trip_def)+

lemma countryRepo_Update_result:
  assumes "countryRepo_Update env c w = (r, w')"
  shows "provinces_tbl (db w') = provinces_tbl (db w)"
    and "map ID (country_tbl (db w')) = map ID (country_tbl (db w))"
    and "uuids_used w' = uuids_used w"
    and "r = None \<Longrightarrow> db w' = apply_stmt (countryRepo_Update_stmt c) (db w)"
  using assms unfolding countryRepo_Update_def
  by (cases "fault env (length (calls w))";
      auto simp: UpdateCountry_frame DB_ExecContext_def round_trip_def)+

lemma Edit_update_frame:
  "country_tbl (db (snd (Edit_update env ps w))) = country_tbl (db w) \<and>
   map NewCase (provinces_tbl (db (snd (Edit_update env ps w)))) = map NewCase (provinces_tbl (db w)) \<and>
   uuids_used (snd (Edit_update env ps w)) = uuids_used w"
proof (induction env ps w rule: Edit_update.induct)
  case (1 env w)
  then show ?case by simp
next
  case (2 env ps w)
  then show ?case by simp
next
  case (3 env p ps w)
  let ?p2 = "(Province_Prepare p)\<lparr>UpdatedAt := now env (ticks w)\<rparr>"
  let ?w1 = "w\<lparr>ticks := Suc (ticks w)\<rparr>"
  obtain r w2 where u: "provinceRepo_Update env ?p2 ?w1 = (r, w2)"
    by (cases "provinceRepo_Update env ?p2 ?w1")
  have f: "country_tbl (db w2) = country_tbl (db w)"
      "map NewCase (provinces_tbl (db w2)) = map NewCase (provinces_tbl (db w))"
      "uuids_used w2 = uuids_used w"
    using provinceRepo_Update_frame [of env ?p2 ?w1] u by simp_all
  show ?case
  proof (cases r)
    case (Some e)
    with u f show ?thesis by (simp add: time_Now_def)
  next
    case None
    with "3.IH" [of "Province_Prepare p" "now env (ticks w)" ?w1 ?p2 None w2] u f
    show ?thesis
      by (auto simp: time_Now_def split: prod.splits sum.splits)
  qed
qed

lemma Edit_update_result:
  assumes "Edit_update env ps w = (r, w')"
  shows "country_tbl (db w') = country_tbl (db w)"
    and "map NewCase (provinces_tbl (db w')) = map NewCase (provinces_tbl (db w))"
    and "uuids_used w' = uuids_used w"
  using Edit_update_frame [of env ps w] assms by simp_all

lemma Edit_frame:
  "uuids_used (snd (Edit env bound w)) = uuids_used w \<and>
   map ID (country_tbl (db (snd (Edit env bound w)))) = map ID (country_tbl (db w)) \<and>
   map NewCase (provinces_tbl (db (snd (Edit env bound w)))) = map NewCase (provinces_tbl (db w))"
proof (cases bound)
  case None
  then show ?thesis by (simp add: Edit_def)
next
  case (Some c)
  let ?c2 = "(Country_Prepare c)\<lparr>UpdatedAt := now env (ticks w)\<rparr>"
  let ?w1 = "w\<lparr>ticks := Suc (ticks w)\<rparr>"
  obtain r w2 where u: "Edit_update env (elems (Provinces ?c2)) ?w1 = (r, w2)"
    by (cases "Edit_update env (elems (Provinces ?c2)) ?w1")
  note f = Edit_update_result [OF u]
  show ?thesis
  proof (cases r)
    case (Inl out)
    with Some u f show ?thesis
      by (simp add: Edit_def Let_def time_Now_def split: option.splits)
  next
    case (Inr ps)
    let ?c3 = "?c2\<lparr>Provinces := set_elems (Provinces ?c2) ps\<rparr>"
    obtain r' w3 where v: "countryRepo_Update env ?c3 w2 = (r', w3)"
      by (cases "countryRepo_Update env ?c3 w2")
    note g = countryRepo_Update_result(1-3) [OF v]
    from Some u f Inr v g show ?thesis
      by (simp add: Edit_def Let_def time_Now_def split: option.splits)
  qed
qed

lemma UpdateProvince_frame:
  "map NewCase (provinces_tbl (db (snd (UpdateProvince env bound w)))) = map NewCase (provinces_tbl (db w))"
proof (cases bound)
  case None
  then show ?thesis by (simp add: UpdateProvince_def)
next
  case (Some p)
  let ?p2 = "(Province_Prepare p)\<lparr>UpdatedAt := now env (ticks w)\<rparr>"
  let ?w1 = "w\<lparr>ticks := Suc (ticks w)\<rparr>"
  obtain r w2 where u: "provinceRepo_Update env ?p2 ?w1 = (r, w2)"
    by (cases "provinceRepo_Update env ?p2 ?w1")
  from provinceRepo_Update_result(2) [OF u] Some u show ?thesis
    by (simp add: UpdateProvince_def Let_def time_Now_def split: option.splits)
qed

lemma Edit_validate_not_OK:
  "Edit_validate ps \<noteq> Some (Return (JSON StatusOK b))"
  by (induction ps rule: Edit_validate.induct)
    (simp_all add: StatusOK_def StatusBadRequest_def split: option.splits)

lemma Edit_update_not_OK:
  "fst (Edit_update env ps w) \<noteq> Inl (Return (JSON StatusOK b))"
proof (induction env ps w rule: Edit_update.induct)
  case (3 env p ps w)
  let ?p2 = "(Province_Prepare p)\<lparr>UpdatedAt := now env (ticks w)\<rparr>"
  let ?w1 = "w\<lparr>ticks := Suc (ticks w)\<rparr>"
  obtain r w2 where u: "provinceRepo_Update env ?p2 ?w1 = (r, w2)"
    by (cases "provinceRepo_Update env ?p2 ?w1")
  show ?case
  proof (cases r)
    case (Some e)
    with u show ?thesis
      by (simp add: time_Now_def Let_def StatusOK_def StatusInternalServerError_def)
  next
    case None
    with "3.IH" [of "Province_Prepare p" "now env (ticks w)" ?w1 ?p2 None w2] u
    show ?thesis
      by (auto simp: time_Now_def Let_def split: prod.splits sum.splits)
  qed
qed simp_all

lemma Edit_validate_None: "Edit_validate ps = None \<Longrightarrow> None \<notin> set ps"
  by (induction ps rule: Edit_validate.induct) (auto split: option.splits)

lemma Edit_stmts_frame:
  "country_tbl (foldl (\<lambda>t s. apply_stmt s t) t (Edit_stmts env n ps)) = country_tbl t"
proof (induction env n ps arbitrary: t rule: Edit_stmts.induct)
  case (3 env n p ps)
  then show ?case by (simp add: UpdateProvinces_frame)
qed simp_all

section \<open>Saving a country\<close>

text \<open>
  \<^verbatim>\<open>Save\<close> on a store that answers every round trip. With at least one province both
  inserts are committed. With no province the builder refuses the second insert, \<^verbatim>\<open>Save\<close>
  returns that error, and the deferred function, which sees a nil \<^verbatim>\<open>err\<close>, commits the
  first insert.
\<close>

lemma countryRepo_Save_ok:
  assumes "province_values (ID c) (elems (Provinces c)) = Some rows" and "rows \<noteq> []"
    and "fault env (length (calls w)) = None"
    and "fault env (Suc (length (calls w))) = None"
    and "fault env (Suc (Suc (length (calls w)))) = None"
    and "fault env (Suc (Suc (Suc (length (calls w))))) = None"
  shows "countryRepo_Save env c w =
     (Return None,
      w\<lparr>calls := calls w @ [BeginTx, Exec (InsertCountry (country_values c)),
                               Exec (InsertProvinces rows), Commit],
        db := (db w)\<lparr>country_tbl := country_tbl (db w) @ [country_values c],
                      provinces_tbl := provinces_tbl (db w) @ rows\<rparr>\<rparr>)"
  using assms
  by (simp add: countryRepo_Save_def Save_deferred_def DB_BeginTx_def Tx_ExecContext_def
      Tx_Commit_def Tx_Rollback_def round_trip_def InsertBuilder_ToSql_def Let_def)

lemma countryRepo_Save_no_provinces:
  assumes "elems (Provinces c) = []"
    and "fault env (length (calls w)) = None"
    and "fault env (Suc (length (calls w))) = None"
    and "fault env (Suc (Suc (length (calls w)))) = None"
  shows "countryRepo_Save env c w =
     (Return (Some (errors_New
        ''insert statements must have at least one set of values or select clause'')),
      w\<lparr>calls := calls w @ [BeginTx, Exec (InsertCountry (country_values c)), Commit],
        db := (db w)\<lparr>country_tbl := country_tbl (db w) @ [country_values c]\<rparr>\<rparr>)"
  using assms
  by (simp add: countryRepo_Save_def Save_deferred_def DB_BeginTx_def Tx_ExecContext_def
      Tx_Commit_def Tx_Rollback_def round_trip_def InsertBuilder_ToSql_def Let_def)

text \<open>
  A failure that the store itself reports aborts the transaction, so that the commit of
  the deferred function turns into a rollback: with at least one province, an error
  returned by \<^verbatim>\<open>Save\<close> means that the tables are as they were. When it is the commit that
  fails, the tables are as they were too, but \<^verbatim>\<open>Save\<close> returns nil.
\<close>

lemma countryRepo_Save_error_keeps_tables:
  assumes "province_values (ID c) (elems (Provinces c)) = Some rows" and "rows \<noteq> []"
    and "fst (countryRepo_Save env c w) = Return (Some e)"
  shows "db (snd (countryRepo_Save env c w)) = db w"
  using assms
  by (auto simp: countryRepo_Save_def Save_deferred_def DB_BeginTx_def Tx_ExecContext_def
      Tx_Commit_def Tx_Rollback_def round_trip_def InsertBuilder_ToSql_def Let_def
      split: option.splits)

lemma countryRepo_Save_commit_failure_unreported:
  assumes "province_values (ID c) (elems (Provinces c)) = Some rows" and "rows \<noteq> []"
    and "fault env (length (calls w)) = None"
    and "fault env (Suc (length (calls w))) = None"
    and "fault env (Suc (Suc (length (calls w)))) = None"
    and "fault env (Suc (Suc (Suc (length (calls w))))) = Some e"
  shows "fst (countryRepo_Save env c w) = Return None \<and>
    db (snd (countryRepo_Save env c w)) = db w"
  using assms
  by (simp add: countryRepo_Save_def Save_deferred_def DB_BeginTx_def Tx_ExecContext_def
      Tx_Commit_def Tx_Rollback_def round_trip_def InsertBuilder_ToSql_def Let_def)

text \<open>
  Claim C2 says that \<^verbatim>\<open>Save\<close> succeeds for a country with an empty \<^verbatim>\<open>Provinces\<close>
  collection, the bulk insert of no rows being a no-op. The code does not do that: with no
  province (a nil or an empty slice), \<^verbatim>\<open>Save\<close> never returns nil, whatever the store answers.
  Where the store answers every round trip the error is the builder's.
\<close>

theorem Save_without_provinces_returns_error:
  "elems (Provinces c) = [] \<Longrightarrow>
     fst (countryRepo_Save env c w) \<noteq> Return None \<and> fst (countryRepo_Save env c w) \<noteq> Panic"
  by (simp add: countryRepo_Save_def DB_BeginTx_def Tx_ExecContext_def round_trip_def
      InsertBuilder_ToSql_def Let_def split: option.splits prod.splits sum.splits)

theorem Save_without_provinces_witness:
  "elems (Provinces laos_new) = [] \<and>
   fst (countryRepo_Save quiet laos_new empty_world) \<noteq> Return None \<and>
   fst (countryRepo_Save quiet laos_new empty_world) \<noteq> Panic \<and>
   fst (countryRepo_Save quiet laos_new empty_world) =
     Return (Some (errors_New
       ''insert statements must have at least one set of values or select clause''))"
proof -
  have h: "elems (Provinces laos_new) = []"
    by (simp add: laos_new_def)
  have "fst (countryRepo_Save quiet laos_new empty_world) =
     Return (Some (errors_New
       ''insert statements must have at least one set of values or select clause''))"
    by (simp add: laos_new_def empty_world_def quiet_def repo_defs store_defs)
  with h Save_without_provinces_returns_error [OF h, of quiet empty_world]
  show ?thesis by simp
qed

text \<open>
  Claim C3 says that \<^verbatim>\<open>Save\<close> is atomic: when an insert fails the transaction is rolled
  back, the error is returned, and no row persists. The code does not do that when the
  insert of the provinces fails in the builder: for a country without provinces, on a
  store that answers every round trip, \<^verbatim>\<open>Save\<close> returns the error of the second insert,
  its round trips are \<^verbatim>\<open>BeginTx\<close>, the insert of the country and \<^verbatim>\<open>Commit\<close> (no
  \<^verbatim>\<open>Rollback\<close>), and the row of the country is in the table afterwards.
\<close>

theorem Save_commits_after_failed_insert:
  assumes "elems (Provinces c) = []"
    and "fault env (length (calls w)) = None"
    and "fault env (Suc (length (calls w))) = None"
    and "fault env (Suc (Suc (length (calls w)))) = None"
  shows "fst (countryRepo_Save env c w) =
      Return (Some (errors_New
        ''insert statements must have at least one set of values or select clause'')) \<and>
    calls (snd (countryRepo_Save env c w)) =
      calls w @ [BeginTx, Exec (InsertCountry (country_values c)), Commit] \<and>
    country_tbl (db (snd (countryRepo_Save env c w))) =
      country_tbl (db w) @ [country_values c]"
  using countryRepo_Save_no_provinces [OF assms] by simp

theorem Save_commits_after_failed_insert_witness:
  "fst (countryRepo_Save quiet laos_new empty_world) =
     Return (Some (errors_New
        ''insert statements must have at least one set of values or select clause'')) \<and>
   calls (snd (countryRepo_Save quiet laos_new empty_world)) =
     [BeginTx, Exec (InsertCountry (country_values laos_new)), Commit] \<and>
   country_tbl (db (snd (countryRepo_Save quiet laos_new empty_world))) =
     [country_values laos_new]"
proof -
  have "elems (Provinces laos_new) = []"
    and "fault quiet (length (calls empty_world)) = None"
    and "fault quiet (Suc (length (calls empty_world))) = None"
    and "fault quiet (Suc (Suc (length (calls empty_world)))) = None"
    by (simp_all add: laos_new_def quiet_def)
  from Save_commits_after_failed_insert [OF this] show ?thesis
    by (simp add: empty_world_def)
qed

section \<open>Creating a country\<close>

text \<open>
  The loop of \<^verbatim>\<open>Store\<close> over provinces that are all there and all have a name after
  \<^verbatim>\<open>Prepare\<close>: it makes no round trip, and leaves each province prepared, with a new
  identifier and a time stamp.
\<close>

lemma Store_provinces_frame:
  "db (snd (Store_provinces env ps w)) = db w \<and>
   calls (snd (Store_provinces env ps w)) = calls w"
proof (induction env ps w rule: Store_provinces.induct)
  case (3 env p ps w)
  let ?w2 = "w\<lparr>uuids_used := Suc (uuids_used w), ticks := Suc (ticks w)\<rparr>"
  let ?p3 = "(Province_Prepare p)\<lparr>ID := NewV4 env (uuids_used w), UpdatedAt := now env (ticks w)\<rparr>"
  show ?case
  proof (cases "Province_Validate ?p3")
    case (Some e)
    then show ?thesis
      by (simp add: Let_def Province_BeforeSave_def uuid_NewV4_def time_Now_def)
  next
    case None
    with "3.IH" [of "Province_Prepare p" "(Province_Prepare p)\<lparr>ID := NewV4 env (uuids_used w)\<rparr>"
        "w\<lparr>uuids_used := Suc (uuids_used w)\<rparr>" "now env (ticks w)" ?w2 ?p3]
    show ?thesis
      by (auto simp: Let_def Province_BeforeSave_def uuid_NewV4_def time_Now_def
          split: prod.splits sum.splits)
  qed
qed simp_all

lemma Store_provinces_ok:
  assumes "None \<notin> set ps"
    and "\<forall>p. Some p \<in> set ps \<longrightarrow> EscapeString (TrimSpace (Name p)) \<noteq> []"
  shows "\<exists>qs. Store_provinces env ps w =
        (Inr (map Some qs),
         w\<lparr>uuids_used := uuids_used w + length ps, ticks := ticks w + length ps\<rparr>) \<and>
      list_all2 (\<lambda>a q. \<exists>p i t. a = Some p \<and> q = (Province_Prepare p)\<lparr>ID := i, UpdatedAt := t\<rparr>)
        ps qs"
  using assms
proof (induction ps arbitrary: w)
  case Nil
  then show ?case by simp
next
  case (Cons a ps)
  then obtain p where a: "a = Some p" by (cases a) auto
  let ?w2 = "w\<lparr>uuids_used := Suc (uuids_used w), ticks := Suc (ticks w)\<rparr>"
  let ?p3 = "(Province_Prepare p)\<lparr>ID := NewV4 env (uuids_used w), UpdatedAt := now env (ticks w)\<rparr>"
  from Cons.prems a have valid: "EscapeString (TrimSpace (Name p)) \<noteq> []" by simp
  from Cons.IH [of ?w2] Cons.prems obtain qs where
    run: "Store_provinces env ps ?w2 =
        (Inr (map Some qs),
         ?w2\<lparr>uuids_used := uuids_used ?w2 + length ps, ticks := ticks ?w2 + length ps\<rparr>)"
    and rel: "list_all2 (\<lambda>a q. \<exists>p i t. a = Some p \<and> q = (Province_Prepare p)\<lparr>ID := i, UpdatedAt := t\<rparr>)
        ps qs"
    by auto
  have "Store_provinces env (a # ps) w =
        (Inr (map Some (?p3 # qs)),
         w\<lparr>uuids_used := uuids_used w + length (a # ps), ticks := ticks w + length (a # ps)\<rparr>)"
    using a valid run
    by (simp add: Let_def Province_BeforeSave_def uuid_NewV4_def time_Now_def
        Province_Prepare_def Province_Validate_def)
  moreover have "list_all2 (\<lambda>a q. \<exists>p i t. a = Some p \<and> q = (Province_Prepare p)\<lparr>ID := i, UpdatedAt := t\<rparr>)
        (a # ps) (?p3 # qs)"
    using a rel by auto
  ultimately show ?case by blast
qed

lemma province_values_Some:
  "province_values cid (map Some qs) = Some (map (province_value cid) qs)"
  by (induction qs) simp_all

lemma scan_province_value:
  "scan_province (province_value cid p) = p\<lparr>Districts := None\<rparr>"
  by (simp add: scan_province_def province_value_def)

lemma countryRepo_Save_quiet:
  assumes "province_values (ID c) (elems (Provinces c)) = Some rows" and "rows \<noteq> []"
    and "\<forall>n. fault env n = None"
  shows "countryRepo_Save env c w =
     (Return None,
      w\<lparr>calls := calls w @ [BeginTx, Exec (InsertCountry (country_values c)),
                               Exec (InsertProvinces rows), Commit],
        db := (db w)\<lparr>country_tbl := country_tbl (db w) @ [country_values c],
                      provinces_tbl := provinces_tbl (db w) @ rows\<rparr>\<rparr>)"
  using assms by (intro countryRepo_Save_ok) simp_all

lemma GetByID_after_Save:
  assumes "fault env (length (calls w)) = None"
    and "fault env (Suc (length (calls w))) = None"
    and "fault env (Suc (Suc (length (calls w)))) = None"
    and "country_tbl (db w) = old @ [cv]" and "ID cv = i" and "\<forall>r\<in>set old. ID r \<noteq> i"
    and "provinces_tbl (db w) = oldp @ rows"
    and "\<forall>r\<in>set oldp. country_id r \<noteq> i" and "\<forall>r\<in>set rows. country_id r = i"
  shows "fst (countryRepo_GetByID env i w) =
    (Some \<lparr>ID = ID cv, Name = Name cv, Total = Total cv, NewCase = NewCase cv,
            Treated = Treated cv, DecoveringCase = DecoveringCase cv, TestCase = TestCase cv,
            Dead = Dead cv, NegativeTest = NegativeTest cv, UpdatedAt = UpdatedAt cv,
            Provinces = Some (map (\<lambda>row. Some (scan_province row))
                                (sort_key (\<lambda>r. - sint (Total r)) rows))\<rparr>, None)"
proof -
  have "filter (\<lambda>r. ID r = i) (country_tbl (db w)) = [cv]"
    using assms(4-6) by simp
  moreover have "filter (\<lambda>r. country_id r = i) (provinces_tbl (db w)) = rows"
    using assms(7-9) by simp
  ultimately show ?thesis
    using assms(1-3)
    by (simp add: countryRepo_GetByID_def DB_QueryRow_country_def DB_Query_provinces_def
        round_trip_def select_country_def select_provinces_def)
qed

lemma sorted_by_total:
  "sorted_wrt (\<lambda>a b. sint (Total (the b)) \<le> sint (Total (the a)))
     (map (\<lambda>row. Some (scan_province row)) (sort_key (\<lambda>r. - sint (Total r)) rows))"
proof -
  have "sorted (map (\<lambda>r. - sint (Total r)) (sort_key (\<lambda>r. - sint (Total r)) rows))"
    by (rule sorted_sort_key)
  then show ?thesis
    by (simp add: sorted_map sorted_wrt_map scan_province_def)
qed

text \<open>
  Creating and reading back, for a payload with at least one province. Let the store
  answer every round trip, let the country and its provinces have a name after
  \<^verbatim>\<open>Prepare\<close>, and let the new identifier of the country be in neither table yet. Then
  \<^verbatim>\<open>Store\<close> answers 200 with a country \<open>c\<close> that has the new identifier, the prepared name
  and the counters of the payload, and whose provinces are those of the payload, prepared,
  identified and stamped; and \<^verbatim>\<open>GetByID\<close> of that identifier returns a country with the
  columns of \<open>c\<close> and with the provinces of \<open>c\<close> (their \<^verbatim>\<open>Districts\<close> nil), in descending
  order of \<^verbatim>\<open>Total\<close>.
\<close>

lemma Store_then_GetByID:
  assumes nofault: "\<forall>n. fault env n = None"
    and name: "EscapeString (TrimSpace (Name c0)) \<noteq> []"
    and some: "elems (Provinces c0) \<noteq> []" and nonnil: "None \<notin> set (elems (Provinces c0))"
    and names: "\<forall>p. Some p \<in> set (elems (Provinces c0)) \<longrightarrow>
      EscapeString (TrimSpace (Name p)) \<noteq> []"
    and fresh: "\<forall>r\<in>set (country_tbl (db w)). ID r \<noteq> NewV4 env (uuids_used w)"
      "\<forall>r\<in>set (provinces_tbl (db w)). country_id r \<noteq> NewV4 env (uuids_used w)"
  shows "\<exists>c c'.
      fst (Store env (Some c0) w) = Return (JSON StatusOK (country_body (Some c))) \<and>
      fst (countryRepo_GetByID env (ID c) (snd (Store env (Some c0) w))) = (Some c', None) \<and>
      ID c = NewV4 env (uuids_used w) \<and>
      Name c = EscapeString (TrimSpace (Name c0)) \<and>
      Total c = Total c0 \<and> NewCase c = NewCase c0 \<and> Treated c = Treated c0 \<and>
      DecoveringCase c = DecoveringCase c0 \<and> TestCase c = TestCase c0 \<and>
      Dead c = Dead c0 \<and> NegativeTest c = NegativeTest c0 \<and>
      list_all2 (\<lambda>a b. \<exists>p i t. a = Some p \<and> b = Some ((Province_Prepare p)\<lparr>ID := i, UpdatedAt := t\<rparr>))
        (elems (Provinces c0)) (elems (Provinces c)) \<and>
      country_values c' = country_values c \<and>
      mset (elems (Provinces c')) =
        mset (map (map_option (\<lambda>p. p\<lparr>Districts := None\<rparr>)) (elems (Provinces c))) \<and>
      sorted_wrt (\<lambda>a b. sint (Total (the b)) \<le> sint (Total (the a))) (elems (Provinces c'))"
proof -
  let ?u = "NewV4 env (uuids_used w)"
  let ?ps = "elems (Provinces c0)"
  let ?c3 = "(Country_Prepare c0)\<lparr>ID := ?u, UpdatedAt := now env (ticks w)\<rparr>"
  let ?w2 = "w\<lparr>uuids_used := Suc (uuids_used w), ticks := Suc (ticks w)\<rparr>"
  let ?w3 = "?w2\<lparr>uuids_used := uuids_used ?w2 + length ?ps, ticks := ticks ?w2 + length ?ps\<rparr>"
  from some obtain ps0 where ps0: "Provinces c0 = Some ps0"
    by (cases "Provinces c0") auto
  from Store_provinces_ok [OF nonnil names, of env ?w2] obtain qs where
    loop: "Store_provinces env ?ps ?w2 = (Inr (map Some qs), ?w3)"
    and rel: "list_all2 (\<lambda>a q. \<exists>p i t. a = Some p \<and> q = (Province_Prepare p)\<lparr>ID := i, UpdatedAt := t\<rparr>)
        ?ps qs"
    by blast
  let ?c4 = "?c3\<lparr>Provinces := Some (map Some qs)\<rparr>"
  let ?rows = "map (province_value ?u) qs"
  let ?w4 = "?w3\<lparr>calls := calls ?w3 @ [BeginTx, Exec (InsertCountry (country_values ?c4)),
                               Exec (InsertProvinces ?rows), Commit],
        db := (db ?w3)\<lparr>country_tbl := country_tbl (db ?w3) @ [country_values ?c4],
                      provinces_tbl := provinces_tbl (db ?w3) @ ?rows\<rparr>\<rparr>"
  from rel some have "qs \<noteq> []" by auto
  then have rows: "?rows \<noteq> []" by simp
  have "province_values (ID ?c4) (elems (Provinces ?c4)) = Some ?rows"
    by (simp add: province_values_Some)
  from countryRepo_Save_quiet [OF this rows nofault, of ?w3]
  have save: "countryRepo_Save env ?c4 ?w3 = (Return None, ?w4)" .
  have store: "Store env (Some c0) w = (Return (JSON StatusOK (country_body (Some ?c4))), ?w4)"
    using name ps0 loop save
    by (simp add: Store_def Let_def Country_BeforeSave_def uuid_NewV4_def time_Now_def
        Country_Prepare_def Country_Validate_def)
  let ?c' = "\<lparr>ID = ID (country_values ?c4), Name = Name (country_values ?c4),
            Total = Total (country_values ?c4), NewCase = NewCase (country_values ?c4),
            Treated = Treated (country_values ?c4),
            DecoveringCase = DecoveringCase (country_values ?c4),
            TestCase = TestCase (country_values ?c4),
            Dead = Dead (country_values ?c4), NegativeTest = NegativeTest (country_values ?c4),
            UpdatedAt = UpdatedAt (country_values ?c4),
            Provinces = Some (map (\<lambda>row. Some (scan_province row))
                                (sort_key (\<lambda>r. - sint (Total r)) ?rows))\<rparr>"
  have get: "fst (countryRepo_GetByID env ?u ?w4) = (Some ?c', None)"
  proof (rule GetByID_after_Save)
    show "country_tbl (db ?w4) = country_tbl (db w) @ [country_values ?c4]" by simp
    show "provinces_tbl (db ?w4) = provinces_tbl (db w) @ ?rows" by simp
    show "ID (country_values ?c4) = ?u" by (simp add: country_values_def)
    show "\<forall>r\<in>set ?rows. country_id r = ?u" by (simp add: province_value_def)
  qed (use nofault fresh in simp_all)
  have "mset (map (\<lambda>row. Some (scan_province row)) (sort_key (\<lambda>r. - sint (Total r)) ?rows)) =
      image_mset (\<lambda>row. Some (scan_province row)) (mset ?rows)"
    by (simp only: mset_map mset_sort)
  also have "\<dots> = mset (map (\<lambda>p. Some (p\<lparr>Districts := None\<rparr>)) qs)"
    by (simp add: scan_province_value image_mset.compositionality comp_def)
  finally have m: "mset (elems (Provinces ?c')) =
        mset (map (map_option (\<lambda>p. p\<lparr>Districts := None\<rparr>)) (elems (Provinces ?c4)))"
    by (simp add: comp_def)
  have s: "sorted_wrt (\<lambda>a b. sint (Total (the b)) \<le> sint (Total (the a))) (elems (Provinces ?c'))"
    using sorted_by_total [of ?rows] by simp
  have r: "list_all2 (\<lambda>a b. \<exists>p i t. a = Some p \<and> b = Some ((Province_Prepare p)\<lparr>ID := i, UpdatedAt := t\<rparr>))
        ?ps (elems (Provinces ?c4))"
    using rel by (simp add: list_all2_map2)
  have v: "country_values ?c' = country_values ?c4"
    by (simp add: country_values_def)
  have f: "ID ?c4 = ?u" "Name ?c4 = EscapeString (TrimSpace (Name c0))"
    "Total ?c4 = Total c0" "NewCase ?c4 = NewCase c0" "Treated ?c4 = Treated c0"
    "DecoveringCase ?c4 = DecoveringCase c0" "TestCase ?c4 = TestCase c0"
    "Dead ?c4 = Dead c0" "NegativeTest ?c4 = NegativeTest c0"
    by (simp_all add: Country_Prepare_def)
  have a: "fst (Store env (Some c0) w) = Return (JSON StatusOK (country_body (Some ?c4)))"
    using store by simp
  have b: "fst (countryRepo_GetByID env (ID ?c4) (snd (Store env (Some c0) w))) = (Some ?c', None)"
    using store get f(1) by simp
  show ?thesis
    by (rule exI [of _ ?c4], rule exI [of _ ?c']) (intro conjI a b f r v m s)
qed

text \<open>
  The scenario of two provinces, Chiang Mai with 50 cases given before Bangkok with 100:
  they are read back as Bangkok, Chiang Mai.
\<close>

lemma Thailand_scenario:
  "fst (Store quiet (Some thailand) empty_world) =
     Return (JSON StatusOK (country_body (Some (thailand
       \<lparr>ID := ''id-'', UpdatedAt := 1000,
        Provinces := Some
          [Some ((province_of ''id-x'' ''Chiang Mai'' 50)\<lparr>UpdatedAt := 1001\<rparr>),
           Some ((province_of ''id-xx'' ''Bangkok'' 100)\<lparr>UpdatedAt := 1002\<rparr>)]\<rparr>)))) \<and>
   fst (countryRepo_GetByID quiet ''id-'' (snd (Store quiet (Some thailand) empty_world))) =
     (Some (thailand
       \<lparr>ID := ''id-'', UpdatedAt := 1000,
        Provinces := Some
          [Some ((province_of ''id-xx'' ''Bangkok'' 100)\<lparr>UpdatedAt := 1002\<rparr>),
           Some ((province_of ''id-x'' ''Chiang Mai'' 50)\<lparr>UpdatedAt := 1001\<rparr>)]\<rparr>), None)"
  by (simp add: thailand_def empty_world_def sample_defs2 service_defs repo_defs store_defs
      string_defs)

text \<open>
  Claim C4 says that for every valid payload with zero or more provinces \<^verbatim>\<open>CreateCountry\<close>
  followed by \<^verbatim>\<open>GetCountryByID\<close> on the returned identifier yields the country back. The
  code does not do that for zero provinces: on a store that answers every round trip,
  \<^verbatim>\<open>Store\<close> of a country with a valid name and no province answers 500 and returns no
  identifier, although the row of the country, under its new identifier, has been added
  to the table.
\<close>

theorem Store_without_provinces_fails:
  assumes "EscapeString (TrimSpace (Name c)) \<noteq> []"
    and "elems (Provinces c) = []"
    and "fault env (length (calls w)) = None"
    and "fault env (Suc (length (calls w))) = None"
    and "fault env (Suc (Suc (length (calls w)))) = None"
  shows "fst (Store env (Some c) w) =
      Return (JSON StatusInternalServerError (ErrorMsg ''Internal server error'')) \<and>
    map ID (country_tbl (db (snd (Store env (Some c) w)))) =
      map ID (country_tbl (db w)) @ [NewV4 env (uuids_used w)]"
proof -
  let ?c3 = "(Country_Prepare c)\<lparr>ID := NewV4 env (uuids_used w), UpdatedAt := now env (ticks w)\<rparr>"
  let ?c4 = "?c3\<lparr>Provinces := set_elems (Provinces ?c3) []\<rparr>"
  let ?w2 = "w\<lparr>uuids_used := Suc (uuids_used w), ticks := Suc (ticks w)\<rparr>"
  have "elems (Provinces ?c4) = []"
    using assms(2) by (cases "Provinces c") (simp_all add: Country_Prepare_def)
  then have "countryRepo_Save env ?c4 ?w2 =
     (Return (Some (errors_New
        ''insert statements must have at least one set of values or select clause'')),
      ?w2\<lparr>calls := calls ?w2 @ [BeginTx, Exec (InsertCountry (country_values ?c4)), Commit],
        db := (db ?w2)\<lparr>country_tbl := country_tbl (db ?w2) @ [country_values ?c4]\<rparr>\<rparr>)"
    using assms(3-5) by (intro countryRepo_Save_no_provinces) simp_all
  with assms(1,2) show ?thesis
    by (simp add: Store_def Let_def Country_BeforeSave_def uuid_NewV4_def time_Now_def
        Country_Validate_def Country_Prepare_def country_values_def)
qed

theorem Store_without_provinces_witness:
  "fst (Store quiet (Some laos_new) empty_world) =
      Return (JSON StatusInternalServerError (ErrorMsg ''Internal server error'')) \<and>
    map ID (country_tbl (db (snd (Store quiet (Some laos_new) empty_world)))) = [''id-'']"
proof -
  have "EscapeString (TrimSpace (Name laos_new)) \<noteq> []"
    and "elems (Provinces laos_new) = []"
    and "fault quiet (length (calls empty_world)) = None"
    and "fault quiet (Suc (length (calls empty_world))) = None"
    and "fault quiet (Suc (Suc (length (calls empty_world)))) = None"
    by (simp_all add: laos_new_def quiet_def string_defs)
  from Store_without_provinces_fails [OF this] show ?thesis
    by (simp add: empty_world_def quiet_def)
qed

section \<open>Reading a country\<close>

text \<open>
  Claim C7. When the store answers the query for the country and no row of table
  \<^verbatim>\<open>country\<close> has the identifier, \<^verbatim>\<open>GetByID\<close> returns no country and the error
  \<^verbatim>\<open>errNotFound\<close>. When \<^verbatim>\<open>GetByID\<close> returns a country and no row of table \<^verbatim>\<open>provinces\<close>
  belongs to the identifier, the \<^verbatim>\<open>Provinces\<close> of that country is the empty slice, not nil.
  And it does return such a country, with the columns of the first row of the identifier,
  when a row matches, no province belongs to the identifier and the store answers the
  three round trips.
\<close>

theorem GetByID_not_found_and_empty:
  "(fault env (length (calls w)) = None \<and> filter (\<lambda>r. ID r = i) (country_tbl (db w)) = [] \<longrightarrow>
      fst (countryRepo_GetByID env i w) = (None, Some errNotFound)) \<and>
   (fst (countryRepo_GetByID env i w) = (Some c, None) \<and>
    filter (\<lambda>r. country_id r = i) (provinces_tbl (db w)) = [] \<longrightarrow>
      Provinces c = Some []) \<and>
   (fault env (length (calls w)) = None \<and> fault env (Suc (length (calls w))) = None \<and>
    fault env (Suc (Suc (length (calls w)))) = None \<and>
    filter (\<lambda>r. ID r = i) (country_tbl (db w)) = r # rs \<and>
    filter (\<lambda>r. country_id r = i) (provinces_tbl (db w)) = [] \<longrightarrow>
      (\<exists>c'. fst (countryRepo_GetByID env i w) = (Some c', None) \<and>
         country_values c' = r \<and> Provinces c' = Some []))"
proof (intro conjI impI)
  assume "fault env (length (calls w)) = None \<and> filter (\<lambda>r. ID r = i) (country_tbl (db w)) = []"
  then show "fst (countryRepo_GetByID env i w) = (None, Some errNotFound)"
    by (simp add: countryRepo_GetByID_def DB_QueryRow_country_def round_trip_def
        select_country_def)
next
  assume "fst (countryRepo_GetByID env i w) = (Some c, None) \<and>
    filter (\<lambda>r. country_id r = i) (provinces_tbl (db w)) = []"
  then show "Provinces c = Some []"
    by (auto simp: countryRepo_GetByID_def DB_QueryRow_country_def DB_Query_provinces_def
        round_trip_def select_country_def select_provinces_def
        split: option.splits list.splits if_splits)
next
  assume "fault env (length (calls w)) = None \<and> fault env (Suc (length (calls w))) = None \<and>
    fault env (Suc (Suc (length (calls w)))) = None \<and>
    filter (\<lambda>r. ID r = i) (country_tbl (db w)) = r # rs \<and>
    filter (\<lambda>r. country_id r = i) (provinces_tbl (db w)) = []"
  then show "\<exists>c'. fst (countryRepo_GetByID env i w) = (Some c', None) \<and>
         country_values c' = r \<and> Provinces c' = Some []"
    by (simp add: countryRepo_GetByID_def DB_QueryRow_country_def DB_Query_provinces_def
        round_trip_def select_country_def select_provinces_def country_values_def)
qed

theorem GetByID_witness:
  "fst (countryRepo_GetByID quiet ''c2'' bare_world) = (None, Some errNotFound) \<and>
   fst (countryRepo_GetByID quiet ''c1'' bare_world) =
     (Some \<lparr>ID = ''c1'', Name = ''Laos'', Total = 10, NewCase = 1, Treated = 2,
        DecoveringCase = 3, TestCase = 4, Dead = 5, NegativeTest = 6, UpdatedAt = 7,
        Provinces = Some []\<rparr>, None)"
proof -
  have a: "fault quiet (length (calls bare_world)) = None \<and>
      filter (\<lambda>r. ID r = ''c2'') (country_tbl (db bare_world)) = []"
    by (simp add: sample_defs bare_world_def)
  have b: "fault quiet (length (calls bare_world)) = None \<and>
      fault quiet (Suc (length (calls bare_world))) = None \<and>
      fault quiet (Suc (Suc (length (calls bare_world)))) = None \<and>
      filter (\<lambda>r. ID r = ''c1'') (country_tbl (db bare_world)) = laos_row # [] \<and>
      filter (\<lambda>r. country_id r = ''c1'') (provinces_tbl (db bare_world)) = []"
    by (simp add: sample_defs bare_world_def)
  from GetByID_not_found_and_empty [of quiet bare_world "''c2''"] a
  have "fst (countryRepo_GetByID quiet ''c2'' bare_world) = (None, Some errNotFound)"
    by blast
  moreover
  from GetByID_not_found_and_empty [of quiet bare_world "''c1''" _ laos_row "[]"] b
  obtain c' where "fst (countryRepo_GetByID quiet ''c1'' bare_world) = (Some c', None)"
    and "country_values c' = laos_row" and "Provinces c' = Some []"
    by blast
  then have "fst (countryRepo_GetByID quiet ''c1'' bare_world) =
     (Some \<lparr>ID = ''c1'', Name = ''Laos'', Total = 10, NewCase = 1, Treated = 2,
        DecoveringCase = 3, TestCase = 4, Dead = 5, NegativeTest = 6, UpdatedAt = 7,
        Provinces = Some []\<rparr>, None)"
    by (cases c') (simp add: country_values_def laos_row_def)
  ultimately show ?thesis by simp
qed

section \<open>Blank names\<close>

text \<open>
  \<^verbatim>\<open>Store\<close> and \<^verbatim>\<open>UpdateProvince\<close> prepare every entity before they validate it, and so
  does \<^verbatim>\<open>Edit\<close> for the country: a name that \<^verbatim>\<open>Prepare\<close> empties (an empty name, or white
  space only) is answered with 400 and the message of the entity, and neither the tables
  nor the trace of round trips change.
\<close>

lemma Store_blank_country_name:
  assumes "EscapeString (TrimSpace (Name c)) = []"
  shows "fst (Store env (Some c) w) =
      Return (JSON StatusBadRequest (ErrorMsg ''country: name is required'')) \<and>
    db (snd (Store env (Some c) w)) = db w \<and> calls (snd (Store env (Some c) w)) = calls w"
  using assms
  by (simp add: Store_def Let_def Country_BeforeSave_def uuid_NewV4_def time_Now_def
      Country_Prepare_def Country_Validate_def)

lemma Store_provinces_blank:
  assumes "None \<notin> set ps" and "Some p \<in> set ps"
    and "EscapeString (TrimSpace (Name p)) = []"
  shows "fst (Store_provinces env ps w) =
    Inl (Return (JSON StatusBadRequest (ErrorMsg ''province: name is required'')))"
  using assms
proof (induction ps arbitrary: w)
  case Nil
  then show ?case by simp
next
  case (Cons a ps)
  then obtain q where a: "a = Some q" by (cases a) auto
  show ?case
  proof (cases "EscapeString (TrimSpace (Name q)) = []")
    case True
    with a show ?thesis
      by (simp add: Let_def Province_BeforeSave_def uuid_NewV4_def time_Now_def
          Province_Prepare_def Province_Validate_def)
  next
    case False
    with Cons.prems a have "Some p \<in> set ps" by auto
    let ?w2 = "w\<lparr>uuids_used := Suc (uuids_used w), ticks := Suc (ticks w)\<rparr>"
    obtain r w3 where run: "Store_provinces env ps ?w2 = (r, w3)"
      by (cases "Store_provinces env ps ?w2")
    from Cons.IH [of ?w2] Cons.prems \<open>Some p \<in> set ps\<close> run
    have "r = Inl (Return (JSON StatusBadRequest (ErrorMsg ''province: name is required'')))"
      by simp
    with a False run show ?thesis
      by (simp add: Let_def Province_BeforeSave_def uuid_NewV4_def time_Now_def
          Province_Prepare_def Province_Validate_def)
  qed
qed

lemma Store_blank_province_name:
  assumes "EscapeString (TrimSpace (Name c)) \<noteq> []"
    and "None \<notin> set (elems (Provinces c))" and "Some p \<in> set (elems (Provinces c))"
    and "EscapeString (TrimSpace (Name p)) = []"
  shows "fst (Store env (Some c) w) =
      Return (JSON StatusBadRequest (ErrorMsg ''province: name is required'')) \<and>
    db (snd (Store env (Some c) w)) = db w \<and> calls (snd (Store env (Some c) w)) = calls w"
proof -
  let ?w2 = "w\<lparr>uuids_used := Suc (uuids_used w), ticks := Suc (ticks w)\<rparr>"
  obtain r w3 where run: "Store_provinces env (elems (Provinces c)) ?w2 = (r, w3)"
    by (cases "Store_provinces env (elems (Provinces c)) ?w2")
  with Store_provinces_blank [OF assms(2-4), of env ?w2]
    Store_provinces_frame [of env "elems (Provinces c)" ?w2]
  have "r = Inl (Return (JSON StatusBadRequest (ErrorMsg ''province: name is required'')))"
    and "db w3 = db w" and "calls w3 = calls w"
    by simp_all
  with run assms(1) show ?thesis
    by (simp add: Store_def Let_def Country_BeforeSave_def uuid_NewV4_def time_Now_def
        Country_Prepare_def Country_Validate_def)
qed

lemma UpdateProvince_blank_name:
  assumes "EscapeString (TrimSpace (Name p)) = []"
  shows "fst (UpdateProvince env (Some p) w) =
      Return (JSON StatusBadRequest (ErrorMsg ''province: name is required'')) \<and>
    db (snd (UpdateProvince env (Some p) w)) = db w \<and>
    calls (snd (UpdateProvince env (Some p) w)) = calls w"
  using assms
  by (simp add: UpdateProvince_def Let_def time_Now_def Province_Prepare_def
      Province_Validate_def)

lemma Edit_blank_country_name:
  assumes "EscapeString (TrimSpace (Name c)) = []"
  shows "fst (Edit env (Some c) w) =
      Return (JSON StatusBadRequest (ErrorMsg ''country: name is required'')) \<and>
    db (snd (Edit env (Some c) w)) = db w \<and> calls (snd (Edit env (Some c) w)) = calls w"
  using assms
  by (simp add: Edit_def Let_def time_Now_def Country_Prepare_def Country_Validate_def)

text \<open>
  For its provinces \<^verbatim>\<open>Edit\<close> rejects the name that is empty as the payload has it.
\<close>

lemma Edit_validate_empty:
  assumes "None \<notin> set ps" and "Some p \<in> set ps" and "Name p = []"
  shows "Edit_validate ps =
    Some (Return (JSON StatusBadRequest (ErrorMsg ''province: name is required'')))"
  using assms
proof (induction ps)
  case Nil
  then show ?case by simp
next
  case (Cons a ps)
  then obtain q where a: "a = Some q" by (cases a) auto
  show ?case
  proof (cases "Name q = []")
    case True
    with a show ?thesis by (simp add: Province_Validate_def)
  next
    case False
    with Cons a show ?thesis by (auto simp: Province_Validate_def)
  qed
qed

lemma Edit_empty_province_name:
  assumes "EscapeString (TrimSpace (Name c)) \<noteq> []"
    and "None \<notin> set (elems (Provinces c))" and "Some p \<in> set (elems (Provinces c))"
    and "Name p = []"
  shows "fst (Edit env (Some c) w) =
      Return (JSON StatusBadRequest (ErrorMsg ''province: name is required'')) \<and>
    db (snd (Edit env (Some c) w)) = db w \<and> calls (snd (Edit env (Some c) w)) = calls w"
  using assms(1) Edit_validate_empty [OF assms(2-4)]
  by (simp add: Edit_def Let_def time_Now_def Country_Prepare_def Country_Validate_def)

section \<open>Editing a country\<close>

text \<open>
  Claim C1 says that every service operation rejects a payload with a blank name (empty
  or white space only) with a validation error and without a call of the store, because
  \<^verbatim>\<open>Prepare\<close> runs before \<^verbatim>\<open>Validate\<close> on every entity. \<^verbatim>\<open>Edit\<close> does not do that for its
  provinces: its first loop validates them as the payload has them, and only its second
  loop prepares them. A province named by three spaces passes, is trimmed to the empty
  name and is written: the answer is 200, the store is called twice, and the row of the
  province has the empty name afterwards.
\<close>

theorem Edit_accepts_blank_province_name:
  "fst (Edit quiet (Some blank_edit) laos_world) =
     Return (JSON StatusOK (country_body (Some (blank_edit
       \<lparr>Name := ''Lao PDR'', UpdatedAt := 1000,
        Provinces := Some [Some ((province_of ''p1'' [] 80)\<lparr>UpdatedAt := 1001\<rparr>)]\<rparr>)))) \<and>
   calls (snd (Edit quiet (Some blank_edit) laos_world)) =
     [Exec (UpdateProvinces ''p1'' [] 80 92 93 94 95 96 1001),
      Exec (UpdateCountry ''c1'' ''Lao PDR'' 20 11 12 13 14 15 16 1000)] \<and>
   map Name (provinces_tbl (db (snd (Edit quiet (Some blank_edit) laos_world)))) = [[]]"
  by (simp add: blank_edit_def sample_defs2 service_defs repo_defs store_defs string_defs)

text \<open>
  Claim C6. \<^verbatim>\<open>Edit\<close> never regenerates the identifier. Whatever the payload and whatever
  the store answers, \<^verbatim>\<open>Edit\<close> draws no identifier from \<^verbatim>\<open>uuid.NewV4\<close> and leaves the \<^verbatim>\<open>id\<close>
  column of table \<^verbatim>\<open>country\<close> as it was. When it answers 200 the country of the answer
  carries the identifier of the payload, and the table is the old one in which the rows of
  that identifier have got the prepared name, the seven counters of the payload and the
  time stamp, and no other row has changed.
\<close>

theorem Edit_preserves_identifier:
  "uuids_used (snd (Edit env bound w)) = uuids_used w \<and>
   map ID (country_tbl (db (snd (Edit env bound w)))) = map ID (country_tbl (db w)) \<and>
   (Edit env (Some c) w = (Return (JSON StatusOK (country_body (Some c'))), w') \<longrightarrow>
      ID c' = ID c \<and>
      country_tbl (db w') =
        map (\<lambda>r. if ID r = ID c
              then r\<lparr>Name := EscapeString (TrimSpace (Name c)), Total := Total c,
                     NewCase := NewCase c, Treated := Treated c,
                     DecoveringCase := DecoveringCase c, TestCase := TestCase c,
                     Dead := Dead c, NegativeTest := NegativeTest c,
                     UpdatedAt := now env (ticks w)\<rparr>
              else r) (country_tbl (db w)))"
proof -
  have "ID c' = ID c \<and>
      country_tbl (db w') =
        map (\<lambda>r. if ID r = ID c
              then r\<lparr>Name := EscapeString (TrimSpace (Name c)), Total := Total c,
                     NewCase := NewCase c, Treated := Treated c,
                     DecoveringCase := DecoveringCase c, TestCase := TestCase c,
                     Dead := Dead c, NegativeTest := NegativeTest c,
                     UpdatedAt := now env (ticks w)\<rparr>
              else r) (country_tbl (db w))"
    if ok: "Edit env (Some c) w = (Return (JSON StatusOK (country_body (Some c'))), w')"
  proof -
    let ?c2 = "(Country_Prepare c)\<lparr>UpdatedAt := now env (ticks w)\<rparr>"
    let ?w1 = "w\<lparr>ticks := Suc (ticks w)\<rparr>"
    obtain r w2 where u: "Edit_update env (elems (Provinces ?c2)) ?w1 = (r, w2)"
      by (cases "Edit_update env (elems (Provinces ?c2)) ?w1")
    from ok u obtain ps where r: "r = Inr ps"
      using Edit_validate_not_OK [of "elems (Provinces (Country_Prepare c))" "country_body (Some c')"]
        Edit_update_not_OK [of env "elems (Provinces (Country_Prepare c))" ?w1 "country_body (Some c')"]
      by (cases r) (auto simp: Edit_def Let_def time_Now_def Country_Validate_def
          StatusOK_def StatusBadRequest_def split: option.splits if_splits)
    let ?c3 = "?c2\<lparr>Provinces := set_elems (Provinces ?c2) ps\<rparr>"
    obtain r' w3 where v: "countryRepo_Update env ?c3 w2 = (r', w3)"
      by (cases "countryRepo_Update env ?c3 w2")
    from ok u r v have res: "r' = None" "c' = ?c3" "w' = w3"
      using Edit_validate_not_OK [of "elems (Provinces (Country_Prepare c))" "country_body (Some c')"]
      by (auto simp: Edit_def Let_def time_Now_def Country_Validate_def StatusOK_def
          StatusBadRequest_def StatusInternalServerError_def split: option.splits if_splits)
    have "country_tbl (db w2) = country_tbl (db w)"
      using Edit_update_result(1) [OF u] by simp
    moreover have "db w3 = apply_stmt (countryRepo_Update_stmt ?c3) (db w2)"
      using countryRepo_Update_result(4) [OF v] res by simp
    ultimately show ?thesis
      using res by (simp add: countryRepo_Update_stmt_def Country_Prepare_def)
  qed
  with Edit_frame [of env bound w] show ?thesis by blast
qed

theorem Edit_preserves_identifier_witness:
  "fst (Edit quiet (Some laos_edit) laos_world) =
     Return (JSON StatusOK (country_body (Some (laos_edit\<lparr>Name := ''Lao PDR'', UpdatedAt := 1000\<rparr>)))) \<and>
   ID (laos_edit\<lparr>Name := ''Lao PDR'', UpdatedAt := 1000\<rparr>) = ID laos_edit \<and>
   country_tbl (db (snd (Edit quiet (Some laos_edit) laos_world))) =
     [\<lparr>ID = ''c1'', Name = ''Lao PDR'', Total = 20, NewCase = 11, Treated = 12,
       DecoveringCase = 13, TestCase = 14, Dead = 15, NegativeTest = 16, UpdatedAt = 1000\<rparr>]"
proof -
  let ?c' = "laos_edit\<lparr>Name := ''Lao PDR'', UpdatedAt := 1000\<rparr>"
  let ?w' = "snd (Edit quiet (Some laos_edit) laos_world)"
  have out: "fst (Edit quiet (Some laos_edit) laos_world) =
      Return (JSON StatusOK (country_body (Some ?c')))"
    by (simp add: sample_defs service_defs repo_defs store_defs string_defs)
  then have run: "Edit quiet (Some laos_edit) laos_world =
      (Return (JSON StatusOK (country_body (Some ?c'))), ?w')"
    by (simp add: prod_eq_iff)
  from Edit_preserves_identifier [of quiet "Some laos_edit" laos_world laos_edit ?c' ?w'] run
  have "ID ?c' = ID laos_edit \<and>
      country_tbl (db ?w') =
        map (\<lambda>r. if ID r = ID laos_edit
              then r\<lparr>Name := EscapeString (TrimSpace (Name laos_edit)), Total := Total laos_edit,
                     NewCase := NewCase laos_edit, Treated := Treated laos_edit,
                     DecoveringCase := DecoveringCase laos_edit, TestCase := TestCase laos_edit,
                     Dead := Dead laos_edit, NegativeTest := NegativeTest laos_edit,
                     UpdatedAt := now quiet (ticks laos_world)\<rparr>
              else r) (country_tbl (db laos_world))"
    by blast
  also have "map (\<lambda>r. if ID r = ID laos_edit
              then r\<lparr>Name := EscapeString (TrimSpace (Name laos_edit)), Total := Total laos_edit,
                     NewCase := NewCase laos_edit, Treated := Treated laos_edit,
                     DecoveringCase := DecoveringCase laos_edit, TestCase := TestCase laos_edit,
                     Dead := Dead laos_edit, NegativeTest := NegativeTest laos_edit,
                     UpdatedAt := now quiet (ticks laos_world)\<rparr>
              else r) (country_tbl (db laos_world)) =
     [\<lparr>ID = ''c1'', Name = ''Lao PDR'', Total = 20, NewCase = 11, Treated = 12,
       DecoveringCase = 13, TestCase = 14, Dead = 15, NegativeTest = 16, UpdatedAt = 1000\<rparr>]"
    by (simp add: sample_defs string_defs)
  finally show ?thesis using out by simp
qed

text \<open>
  The second loop of \<^verbatim>\<open>Edit\<close> when the update of the province at index \<open>i\<close> is the first
  that the store refuses.
\<close>

lemma Edit_update_fails_at:
  assumes "i < length ps" and "None \<notin> set ps"
    and "\<forall>j<i. fault env (length (calls w) + j) = None"
    and "fault env (length (calls w) + i) = Some e"
  shows "Edit_update env ps w =
     (Inl (Return (JSON StatusInternalServerError
        (ErrorMsg ''Internal server error, could not update province information''))),
      w\<lparr>ticks := ticks w + Suc i,
        calls := calls w @ map Exec (Edit_stmts env (ticks w) (take (Suc i) ps)),
        db := foldl (\<lambda>t s. apply_stmt s t) (db w) (Edit_stmts env (ticks w) (take i ps))\<rparr>)"
  using assms
proof (induction ps arbitrary: i w)
  case Nil
  then show ?case by simp
next
  case (Cons a ps)
  then obtain p where a: "a = Some p" by (cases a) auto
  let ?p2 = "(Province_Prepare p)\<lparr>UpdatedAt := now env (ticks w)\<rparr>"
  let ?s = "provinceRepo_Update_stmt ?p2"
  let ?w1 = "w\<lparr>ticks := Suc (ticks w)\<rparr>"
  show ?case
  proof (cases i)
    case 0
    with Cons.prems have "fault env (length (calls ?w1)) = Some e" by simp
    then have "provinceRepo_Update env ?p2 ?w1 = (Some e, ?w1\<lparr>calls := calls ?w1 @ [Exec ?s]\<rparr>)"
      unfolding provinceRepo_Update_def by (rule DB_ExecContext_fault)
    with a 0 show ?thesis
      by (simp add: time_Now_def Let_def)
  next
    case (Suc i')
    let ?w2 = "?w1\<lparr>calls := calls ?w1 @ [Exec ?s], db := apply_stmt ?s (db ?w1)\<rparr>"
    from Cons.prems Suc have "fault env (length (calls ?w1)) = None" by auto
    then have upd: "provinceRepo_Update env ?p2 ?w1 = (None, ?w2)"
      unfolding provinceRepo_Update_def by (rule DB_ExecContext_ok)
    have "Edit_update env ps ?w2 =
     (Inl (Return (JSON StatusInternalServerError
        (ErrorMsg ''Internal server error, could not update province information''))),
      ?w2\<lparr>ticks := ticks ?w2 + Suc i',
        calls := calls ?w2 @ map Exec (Edit_stmts env (ticks ?w2) (take (Suc i') ps)),
        db := foldl (\<lambda>t s. apply_stmt s t) (db ?w2) (Edit_stmts env (ticks ?w2) (take i' ps))\<rparr>)"
    proof (rule Cons.IH)
      show "i' < length ps" using Cons.prems Suc by simp
      show "None \<notin> set ps" using Cons.prems by simp
      show "\<forall>j<i'. fault env (length (calls ?w2) + j) = None"
      proof (intro allI impI)
        fix j assume "j < i'"
        then have "Suc j < i" using Suc by simp
        with Cons.prems(3) have "fault env (length (calls w) + Suc j) = None" by blast
        then show "fault env (length (calls ?w2) + j) = None" by simp
      qed
      show "fault env (length (calls ?w2) + i') = Some e"
        using Cons.prems(4) Suc by simp
    qed
    with a Suc upd show ?thesis
      by (simp add: time_Now_def Let_def)
  qed
qed

text \<open>
  Claim C8. Let the country and all provinces of the payload pass validation, and let the
  update of the province at index \<open>i\<close> be the first round trip that fails. Then \<^verbatim>\<open>Edit\<close>
  answers 500 with the message for provinces; table \<^verbatim>\<open>country\<close> is unchanged and the
  trace holds the updates of the provinces up to index \<open>i\<close> and nothing else; and the
  tables are exactly what the updates of the \<open>i\<close> provinces before it have made of them:
  nothing is rolled back.
\<close>

theorem Edit_province_failure_keeps_earlier_updates:
  assumes "EscapeString (TrimSpace (Name c)) \<noteq> []"
    and "Edit_validate (elems (Provinces c)) = None"
    and "i < length (elems (Provinces c))"
    and "\<forall>j<i. fault env (length (calls w) + j) = None"
    and "fault env (length (calls w) + i) = Some e"
  shows "fst (Edit env (Some c) w) =
      Return (JSON StatusInternalServerError
        (ErrorMsg ''Internal server error, could not update province information'')) \<and>
    country_tbl (db (snd (Edit env (Some c) w))) = country_tbl (db w) \<and>
    db (snd (Edit env (Some c) w)) =
      foldl (\<lambda>t s. apply_stmt s t) (db w)
        (Edit_stmts env (Suc (ticks w)) (take i (elems (Provinces c)))) \<and>
    calls (snd (Edit env (Some c) w)) =
      calls w @ map Exec (Edit_stmts env (Suc (ticks w)) (take (Suc i) (elems (Provinces c))))"
proof -
  let ?ps = "elems (Provinces c)"
  let ?w1 = "w\<lparr>ticks := Suc (ticks w)\<rparr>"
  have "Edit_update env ?ps ?w1 =
     (Inl (Return (JSON StatusInternalServerError
        (ErrorMsg ''Internal server error, could not update province information''))),
      ?w1\<lparr>ticks := ticks ?w1 + Suc i,
        calls := calls ?w1 @ map Exec (Edit_stmts env (ticks ?w1) (take (Suc i) ?ps)),
        db := foldl (\<lambda>t s. apply_stmt s t) (db ?w1) (Edit_stmts env (ticks ?w1) (take i ?ps))\<rparr>)"
    using assms(3-5) Edit_validate_None [OF assms(2)]
    by (intro Edit_update_fails_at) simp_all
  with assms(1,2) show ?thesis
    by (simp add: Edit_def Let_def time_Now_def Country_Prepare_def Country_Validate_def
        Edit_stmts_frame)
qed

theorem Edit_province_failure_witness:
  "fst (Edit (flaky 1) (Some two_edit) two_world) =
      Return (JSON StatusInternalServerError
        (ErrorMsg ''Internal server error, could not update province information'')) \<and>
   country_tbl (db (snd (Edit (flaky 1) (Some two_edit) two_world))) = [laos_row] \<and>
   provinces_tbl (db (snd (Edit (flaky 1) (Some two_edit) two_world))) =
     [vientiane_row\<lparr>Name := ''Vientiane &lt;1&gt;'', Total := 80, Treated := 92,
        DecoveringCase := 93, TestCase := 94, Dead := 95, NegativeTest := 96,
        UpdatedAt := 1001\<rparr>,
      pakse_row]"
proof -
  have h1: "EscapeString (TrimSpace (Name two_edit)) \<noteq> []"
    by (simp add: sample_defs2 string_defs)
  have h2: "Edit_validate (elems (Provinces two_edit)) = None"
    by (simp add: sample_defs2 Province_Validate_def)
  have h3: "1 < length (elems (Provinces two_edit))"
    by (simp add: sample_defs2)
  have h4: "\<forall>j<1. fault (flaky 1) (length (calls two_world) + j) = None"
    by (simp add: sample_defs2)
  have h5: "fault (flaky 1) (length (calls two_world) + 1) = Some (driver_error ''connection reset'')"
    by (simp add: sample_defs2)
  have ev: "foldl (\<lambda>t s. apply_stmt s t) (db two_world)
        (Edit_stmts (flaky 1) (Suc (ticks two_world)) (take 1 (elems (Provinces two_edit)))) =
      \<lparr>country_tbl = [laos_row],
       provinces_tbl =
         [vientiane_row\<lparr>Name := ''Vientiane &lt;1&gt;'', Total := 80, Treated := 92,
            DecoveringCase := 93, TestCase := 94, Dead := 95, NegativeTest := 96,
            UpdatedAt := 1001\<rparr>,
          pakse_row]\<rparr>"
    by (simp add: sample_defs2 string_defs provinceRepo_Update_stmt_def Province_Prepare_def)
  from Edit_province_failure_keeps_earlier_updates [OF h1 h2 h3 h4 h5] ev
  show ?thesis by simp
qed

section \<open>The province repository\<close>

text \<open>
  Claim C9. \<^verbatim>\<open>provinceRepo.Update\<close> never writes column \<^verbatim>\<open>new_case\<close>: after it, and
  after \<^verbatim>\<open>UpdateProvince\<close> and \<^verbatim>\<open>Edit\<close>, which reach the table through it, the column is
  what it was, whatever the payload and whatever the store answers. The update fails
  exactly when its round trip does, and when it succeeds the rows of the identifier have
  got the name, the six other counters and the time stamp of the payload.
\<close>

theorem provinceRepo_Update_leaves_new_case:
  "map NewCase (provinces_tbl (db (snd (provinceRepo_Update env p w)))) =
     map NewCase (provinces_tbl (db w)) \<and>
   map NewCase (provinces_tbl (db (snd (UpdateProvince env bp w)))) =
     map NewCase (provinces_tbl (db w)) \<and>
   map NewCase (provinces_tbl (db (snd (Edit env bc w)))) =
     map NewCase (provinces_tbl (db w)) \<and>
   fst (provinceRepo_Update env p w) = fault env (length (calls w)) \<and>
   (fst (provinceRepo_Update env p w) = None \<longrightarrow>
      provinces_tbl (db (snd (provinceRepo_Update env p w))) =
        map (\<lambda>r. if ID r = ID p
              then r\<lparr>Name := Name p, Total := Total p, Treated := Treated p,
                     DecoveringCase := DecoveringCase p, TestCase := TestCase p,
                     Dead := Dead p, NegativeTest := NegativeTest p,
                     UpdatedAt := UpdatedAt p\<rparr>
              else r) (provinces_tbl (db w)))"
proof -
  obtain r w' where u: "provinceRepo_Update env p w = (r, w')"
    by (cases "provinceRepo_Update env p w")
  have "r = None \<Longrightarrow> provinces_tbl (db w') =
        map (\<lambda>r. if ID r = ID p
              then r\<lparr>Name := Name p, Total := Total p, Treated := Treated p,
                     DecoveringCase := DecoveringCase p, TestCase := TestCase p,
                     Dead := Dead p, NegativeTest := NegativeTest p,
                     UpdatedAt := UpdatedAt p\<rparr>
              else r) (provinces_tbl (db w))"
    using provinceRepo_Update_result(5) [OF u] by (simp add: provinceRepo_Update_stmt_def)
  with provinceRepo_Update_result(2,4) [OF u] u UpdateProvince_frame [of env bp w]
    Edit_frame [of env bc w]
  show ?thesis by simp
qed

theorem provinceRepo_Update_witness:
  "fst (provinceRepo_Update quiet (province_of ''p1'' ''Vientiane Capital'' 80) laos_world) = None \<and>
   provinces_tbl (db (snd (provinceRepo_Update quiet (province_of ''p1'' ''Vientiane Capital'' 80) laos_world))) =
     [\<lparr>ID = ''p1'', Name = ''Vientiane Capital'', Total = 80, NewCase = 1, Treated = 92,
       DecoveringCase = 93, TestCase = 94, Dead = 95, NegativeTest = 96, UpdatedAt = 0,
       country_id = ''c1''\<rparr>]"
proof -
  let ?p = "province_of ''p1'' ''Vientiane Capital'' 80"
  have "fault quiet (length (calls laos_world)) = None"
    by (simp add: sample_defs)
  with provinceRepo_Update_leaves_new_case [of quiet ?p laos_world None None]
  have "fst (provinceRepo_Update quiet ?p laos_world) = None"
    and "provinces_tbl (db (snd (provinceRepo_Update quiet ?p laos_world))) =
        map (\<lambda>r. if ID r = ID ?p
              then r\<lparr>Name := Name ?p, Total := Total ?p, Treated := Treated ?p,
                     DecoveringCase := DecoveringCase ?p, TestCase := TestCase ?p,
                     Dead := Dead ?p, NegativeTest := NegativeTest ?p,
                     UpdatedAt := UpdatedAt ?p\<rparr>
              else r) (provinces_tbl (db laos_world))"
    by simp_all
  then show ?thesis
    by (simp add: sample_defs province_of_def)
qed

text \<open>
  Claim C10. \<^verbatim>\<open>Save\<close> and \<^verbatim>\<open>Delete\<close> of the province repository return nil for every input
  and leave the world as it is: no round trip, no change of the tables. \<^verbatim>\<open>GetByID\<close> and
  \<^verbatim>\<open>GetAll\<close> return a nil entity and a nil error for every input.
\<close>

theorem provinceRepo_stubs:
  "provinceRepo_Save env p w = (None, w) \<and>
   provinceRepo_Delete env p w = (None, w) \<and>
   provinceRepo_GetByID env i w = ((None, None), w) \<and>
   provinceRepo_GetAll env w = ((None, None), w)"
  by (simp add: provinceRepo_Save_def provinceRepo_Delete_def provinceRepo_GetByID_def
      provinceRepo_GetAll_def)

end
